theory Spec2Isabelle
  imports Complex_Main "HOL-Library.Word" "HOL-Library.Sublist"
begin

section \<open>Data model of \<open>face_detection_model.py\<close>\<close>

text \<open>
  An image is a numpy array of shape \<open>(shape0, shape1, 3)\<close> with 8-bit channels
  (BGR). The shape is kept beside the rows, since a numpy array with no rows still has
  a width.
\<close>

type_synonym pixel = "8 word \<times> 8 word \<times> 8 word"

record image =
  shape0 :: nat
  shape1 :: nat
  pixels :: "pixel list list"

definition img_size :: "image \<Rightarrow> nat" where
  "img_size img = shape0 img * shape1 img * 3"

text \<open>
  Python slicing \<open>xs[lo:hi]\<close> with step 1: a negative index counts from the end, and
  both indices are clipped to the sequence.
\<close>

definition slice_index :: "int \<Rightarrow> int \<Rightarrow> int" where
  "slice_index n i = (if i < 0 then max (i + n) 0 else min i n)"

definition slice_len :: "nat \<Rightarrow> int \<Rightarrow> int \<Rightarrow> nat" where
  "slice_len n lo hi = nat (slice_index (int n) hi - slice_index (int n) lo)"

definition py_slice :: "'a list \<Rightarrow> int \<Rightarrow> int \<Rightarrow> 'a list" where
  "py_slice xs lo hi =
     take (slice_len (length xs) lo hi) (drop (nat (slice_index (int (length xs)) lo)) xs)"

text \<open>\<open>image[y1:y2, x1:x2]\<close>\<close>

definition crop :: "image \<Rightarrow> int \<Rightarrow> int \<Rightarrow> int \<Rightarrow> int \<Rightarrow> image" where
  "crop img y1 y2 x1 x2 =
     \<lparr>shape0 = slice_len (shape0 img) y1 y2,
      shape1 = slice_len (shape1 img) x1 x2,
      pixels = map (\<lambda>row. py_slice row x1 x2) (py_slice (pixels img) y1 y2)\<rparr>"

text \<open>\<open>np.zeros((100, 100, 3), dtype=np.uint8)\<close>\<close>

definition sample_img :: image where
  "sample_img = \<lparr>shape0 = 100, shape1 = 100, pixels = replicate 100 (replicate 100 (0, 0, 0))\<rparr>"

text \<open>
  Exceptions are values. \<open>BackendError\<close> stands for an exception of an external
  library (torch, cv2, DeepFace) that derives from \<open>Exception\<close>;
  \<open>KeyboardInterrupt\<close> and \<open>SystemExit\<close> derive from \<open>BaseException\<close> only, so
  that \<open>except Exception\<close> does not catch them and a bare \<open>except\<close> does.
\<close>

datatype error =
    IndexError | KeyError | ValueError | OverflowError | BackendError string
  | KeyboardInterrupt | SystemExit

fun is_exception :: "error \<Rightarrow> bool" where
  "is_exception KeyboardInterrupt = False"
| "is_exception SystemExit = False"
| "is_exception IndexError = True"
| "is_exception KeyError = True"
| "is_exception ValueError = True"
| "is_exception OverflowError = True"
| "is_exception (BackendError msg) = True"

text \<open>
  The numbers a detector hands back as box coordinates: numpy \<open>int32\<close> values on the
  cascade path, \<open>float32\<close> values on the learned path (a finite float is a real
  number; NaN and the infinities are kept apart because \<open>int()\<close> raises on them).
\<close>

datatype number = IntNum int | FloatNum real | NanNum | InfNum

fun py_int :: "number \<Rightarrow> error + int" where
  "py_int (IntNum n) = Inr n"
| "py_int (FloatNum x) = Inr (if x < 0 then - \<lfloor>- x\<rfloor> else \<lfloor>x\<rfloor>)"
| "py_int NanNum = Inl ValueError"
| "py_int InfNum = Inl OverflowError"

type_synonym raw_box = "number \<times> number \<times> number \<times> number"

type_synonym int_box = "int \<times> int \<times> int \<times> int"

text \<open>The dictionary \<open>prediction[0]\<close> of the Faster R-CNN model.\<close>

record prediction =
  boxes :: "raw_box list"
  labels :: "int list"
  scores :: "real list"

text \<open>A rectangle \<open>(x, y, w, h)\<close> of \<open>detectMultiScale\<close>, numpy \<open>int32\<close>.\<close>

type_synonym rect = "32 word \<times> 32 word \<times> 32 word \<times> 32 word"

text \<open>Values of the dictionaries that \<open>DeepFace.analyze\<close> returns.\<close>

datatype pyval = PyStr string | PyInt int

type_synonym analysis = "string \<rightharpoonup> pyval"

datatype action = Emotion | Age | Gender

type_synonym color = "int \<times> int \<times> int"

text \<open>
  The calls made to DeepFace and to the drawing primitives of cv2, in the order they
  are made. A drawing call names the buffer it draws on.
\<close>

datatype event =
    Analyze image "action list"
  | Rectangle nat "int \<times> int" "int \<times> int" color int
  | GetTextSize string
  | PutText nat string "int \<times> int" color

text \<open>
  The external collaborators. \<open>model_call\<close> is \<open>to_tensor\<close> followed by
  \<open>self.model([img_tensor])\<close>; \<open>detectMultiScale\<close> is \<open>cv2.cvtColor\<close> followed
  by \<open>self.face_cascade.detectMultiScale(gray, 1.1, 4)\<close>. The answer of
  \<open>DeepFace.analyze\<close> may depend on the calls made before it (a model that fails to
  load at first and loads later). Each of them may raise.
\<close>

record env =
  DEEPFACE_AVAILABLE :: bool
  model_call :: "image \<Rightarrow> error + prediction list"
  detectMultiScale :: "image \<Rightarrow> error + rect list"
  DeepFace_analyze :: "event list \<Rightarrow> image \<Rightarrow> action list \<Rightarrow> error + analysis list"
  cv2_rectangle :: "image \<Rightarrow> int \<times> int \<Rightarrow> int \<times> int \<Rightarrow> color \<Rightarrow> int \<Rightarrow> error + image"
  cv2_getTextSize :: "string \<Rightarrow> error + ((int \<times> int) \<times> int)"
  cv2_putText :: "image \<Rightarrow> string \<Rightarrow> int \<times> int \<Rightarrow> color \<Rightarrow> error + image"

text \<open>
  The fields of \<open>self\<close> (\<open>face_cascade\<close> is true when \<open>self.face_cascade is not
  None\<close>), the pixel buffers by address, and the log of calls.
\<close>

record world =
  torch_available :: bool
  face_cascade :: bool
  emotion_model_loaded :: bool
  age_gender_model_loaded :: bool
  bufs :: "image list"
  calls :: "event list"

record face_info =
  box :: int_box
  confidence :: real
  emotion :: "pyval option"
  age :: "pyval option"
  gender :: "pyval option"

section \<open>Operations\<close>

definition alloc :: "image \<Rightarrow> world \<Rightarrow> nat \<times> world" where
  "alloc img w = (length (bufs w), w\<lparr>bufs := bufs w @ [img]\<rparr>)"

definition buf :: "world \<Rightarrow> nat \<Rightarrow> image" where
  "buf w a = bufs w ! a"

text \<open>\<open>DeepFace.analyze(img, actions=acts, enforce_detection=False, silent=True)\<close>\<close>

definition analyze :: "env \<Rightarrow> image \<Rightarrow> action list \<Rightarrow> world \<Rightarrow> (error + analysis list) \<times> world" where
  "analyze e img acts w =
     (DeepFace_analyze e (calls w) img acts, w\<lparr>calls := calls w @ [Analyze img acts]\<rparr>)"

text \<open>
  \<open>_ensure_models_loaded\<close>. The bare \<open>except\<close> around each warm-up call catches
  whatever it raises, also what is not an \<open>Exception\<close>; the messages printed are
  not modelled.
\<close>

definition ensure_models_loaded :: "env \<Rightarrow> world \<Rightarrow> world" where
  "ensure_models_loaded e w =
     (if \<not> DEEPFACE_AVAILABLE e then w
      else if \<not> emotion_model_loaded w \<or> \<not> age_gender_model_loaded w then
        (case analyze e sample_img [Emotion] w of
           (r1, w1) \<Rightarrow>
             (let w2 = (case r1 of Inr _ \<Rightarrow> w1\<lparr>emotion_model_loaded := True\<rparr> | Inl _ \<Rightarrow> w1)
              in case analyze e sample_img [Age, Gender] w2 of
                   (r2, w3) \<Rightarrow>
                     (case r2 of Inr _ \<Rightarrow> w3\<lparr>age_gender_model_loaded := True\<rparr> | Inl _ \<Rightarrow> w3)))
      else w)"

text \<open>\<open>_detect_faces_opencv\<close>: \<open>x+w\<close> and \<open>y+h\<close> are sums of \<open>int32\<close> values.\<close>

definition detect_faces_opencv :: "env \<Rightarrow> image \<Rightarrow> error + (raw_box list \<times> real list)" where
  "detect_faces_opencv e img =
     (case detectMultiScale e img of
        Inl err \<Rightarrow> Inl err
      | Inr faces \<Rightarrow>
          Inr (map (\<lambda>(x, y, w, h).
                     (IntNum (sint x), IntNum (sint y), IntNum (sint (x + w)), IntNum (sint (y + h))))
                   faces,
               map (\<lambda>_. 1) faces))"

text \<open>Indexing with a boolean mask, \<open>xs[m]\<close>.\<close>

definition mask_index :: "'a list \<Rightarrow> bool list \<Rightarrow> error + 'a list" where
  "mask_index xs m =
     (if length m \<noteq> length xs then Inl IndexError else Inr (map fst (filter snd (zip xs m))))"

text \<open>
  The learned-detector branch of \<open>detect_faces\<close> (lines 96 to 106). Scores are
  \<open>float32\<close> values, read here as the real numbers they denote: no \<open>float32\<close>
  value lies between the \<open>float32\<close> nearest to \<open>0.7\<close> and \<open>7/10\<close>, so
  \<open>scores > 0.7\<close> keeps a score exactly when it exceeds \<open>7/10\<close>. A NaN score
  fails the comparison and is dropped by the mask.
\<close>

definition detect_faces_torch :: "env \<Rightarrow> image \<Rightarrow> error + (raw_box list \<times> real list)" where
  "detect_faces_torch e img =
     (case model_call e img of
        Inl err \<Rightarrow> Inl err
      | Inr [] \<Rightarrow> Inl IndexError
      | Inr (p # _) \<Rightarrow>
          (case mask_index (boxes p) (map (\<lambda>s. s > 7 / 10) (scores p)) of
             Inl err \<Rightarrow> Inl err
           | Inr bs \<Rightarrow>
               (case mask_index (scores p) (map (\<lambda>s. s > 7 / 10) (scores p)) of
                  Inl err \<Rightarrow> Inl err
                | Inr ss \<Rightarrow> Inr (bs, ss))))"

text \<open>\<open>x1, y1, x2, y2 = map(int, box)\<close>\<close>

definition to_box :: "raw_box \<Rightarrow> error + int_box" where
  "to_box b =
     (case b of (c1, c2, c3, c4) \<Rightarrow>
        (case py_int c1 of Inl err \<Rightarrow> Inl err | Inr x1 \<Rightarrow>
        (case py_int c2 of Inl err \<Rightarrow> Inl err | Inr y1 \<Rightarrow>
        (case py_int c3 of Inl err \<Rightarrow> Inl err | Inr x2 \<Rightarrow>
        (case py_int c4 of Inl err \<Rightarrow> Inl err | Inr y2 \<Rightarrow> Inr (x1, y1, x2, y2))))))"

definition py_index :: "'a list \<Rightarrow> nat \<Rightarrow> error + 'a" where
  "py_index xs i = (if i < length xs then Inr (xs ! i) else Inl IndexError)"

text \<open>
  The body of the \<open>try\<close> of lines 142 to 152, in two steps. Each returns the exception
  raised (if any), the record as far as it was filled, and the world.
\<close>

definition emotion_step :: "env \<Rightarrow> image \<Rightarrow> face_info \<Rightarrow> world \<Rightarrow> error option \<times> face_info \<times> world" where
  "emotion_step e face_img info w =
     (if emotion_model_loaded w then
        (case analyze e face_img [Emotion] w of
           (Inl err, w') \<Rightarrow> (Some err, info, w')
         | (Inr [], w') \<Rightarrow> (None, info, w')
         | (Inr (d # _), w') \<Rightarrow>
             (case d ''dominant_emotion'' of
                None \<Rightarrow> (Some KeyError, info, w')
              | Some v \<Rightarrow> (None, info\<lparr>emotion := Some v\<rparr>, w')))
      else (None, info, w))"

definition age_gender_step :: "env \<Rightarrow> image \<Rightarrow> face_info \<Rightarrow> world \<Rightarrow> error option \<times> face_info \<times> world" where
  "age_gender_step e face_img info w =
     (if age_gender_model_loaded w then
        (case analyze e face_img [Age, Gender] w of
           (Inl err, w') \<Rightarrow> (Some err, info, w')
         | (Inr [], w') \<Rightarrow> (None, info, w')
         | (Inr (d # _), w') \<Rightarrow>
             (case d ''age'' of
                None \<Rightarrow> (Some KeyError, info, w')
              | Some a \<Rightarrow>
                  (case d ''dominant_gender'' of
                     None \<Rightarrow> (Some KeyError, info\<lparr>age := Some a\<rparr>, w')
                   | Some g \<Rightarrow> (None, info\<lparr>age := Some a, gender := Some g\<rparr>, w'))))
      else (None, info, w))"

text \<open>
  Lines 140 to 154. The handler of line 153 is \<open>except Exception\<close>: an exception
  of either step that derives from \<open>Exception\<close> is caught and printed, and the
  record stays as far as it was filled; any other exception leaves the function.
\<close>

definition except_Exception :: "error \<Rightarrow> face_info \<Rightarrow> world \<Rightarrow> (error + face_info) \<times> world" where
  "except_Exception err info w = (if is_exception err then (Inr info, w) else (Inl err, w))"

definition analyze_face :: "env \<Rightarrow> image \<Rightarrow> face_info \<Rightarrow> world \<Rightarrow> (error + face_info) \<times> world" where
  "analyze_face e face_img info w =
     (if DEEPFACE_AVAILABLE e then
        (case emotion_step e face_img info w of
           (Some err, info1, w1) \<Rightarrow> except_Exception err info1 w1
         | (None, info1, w1) \<Rightarrow>
             (case age_gender_step e face_img info1 w1 of
                (Some err, info2, w2) \<Rightarrow> except_Exception err info2 w2
              | (None, info2, w2) \<Rightarrow> (Inr info2, w2)))
      else (Inr info, w))"

text \<open>
  Truth value and \<open>f"{v}"\<close> of a field of the record (\<open>None\<close> is the Python
  \<open>None\<close>).
\<close>

fun truthy :: "pyval option \<Rightarrow> bool" where
  "truthy None = False"
| "truthy (Some (PyStr s)) = (s \<noteq> [])"
| "truthy (Some (PyInt n)) = (n \<noteq> 0)"

fun str_nat :: "nat \<Rightarrow> string" where
  "str_nat n =
     (if n < 10 then [''0123456789'' ! n] else str_nat (n div 10) @ [''0123456789'' ! (n mod 10)])"

declare str_nat.simps [simp del]

definition str_int :: "int \<Rightarrow> string" where
  "str_int i = (if i < 0 then ''-'' @ str_nat (nat (- i)) else str_nat (nat i))"

fun py_format :: "pyval option \<Rightarrow> string" where
  "py_format None = ''None''"
| "py_format (Some (PyStr s)) = s"
| "py_format (Some (PyInt n)) = str_int n"

text \<open>Lines 162 to 168.\<close>

definition make_label :: "face_info \<Rightarrow> string" where
  "make_label info =
     (let l0 = [];
          l1 = (if truthy (emotion info) then l0 @ ''Emotion: '' @ py_format (emotion info) @ '' ''
                else l0);
          l2 = (if truthy (age info) then l1 @ ''Age: '' @ py_format (age info) @ '' '' else l1);
          l3 = (if truthy (gender info) then l2 @ ''Gender: '' @ py_format (gender info) else l2)
      in l3)"

text \<open>
  A drawing primitive applied to the buffer at address \<open>r\<close>: the call is logged, and
  the buffer is replaced by what the primitive returns (cv2 draws in place); a call
  that raises leaves the buffer as it was.
\<close>

definition draw_on :: "nat \<Rightarrow> (image \<Rightarrow> error + image) \<Rightarrow> event \<Rightarrow> world \<Rightarrow> (error + unit) \<times> world" where
  "draw_on r f ev w =
     (let w' = w\<lparr>calls := calls w @ [ev]\<rparr>
      in case f (buf w' r) of
           Inl err \<Rightarrow> (Inl err, w')
         | Inr img \<Rightarrow> (Inr (), w'\<lparr>bufs := (bufs w')[r := img]\<rparr>))"

definition getTextSize :: "env \<Rightarrow> string \<Rightarrow> world \<Rightarrow> (error + ((int \<times> int) \<times> int)) \<times> world" where
  "getTextSize e label w = (cv2_getTextSize e label, w\<lparr>calls := calls w @ [GetTextSize label]\<rparr>)"

text \<open>Lines 158 to 174: the box, then the label on its strip.\<close>

definition annotate :: "env \<Rightarrow> nat \<Rightarrow> face_info \<Rightarrow> world \<Rightarrow> (error + unit) \<times> world" where
  "annotate e r info w =
     (case box info of (x1, y1, x2, y2) \<Rightarrow>
        (case draw_on r (\<lambda>img. cv2_rectangle e img (x1, y1) (x2, y2) (255, 0, 0) 2)
                (Rectangle r (x1, y1) (x2, y2) (255, 0, 0) 2) w of
           (Inl err, w1) \<Rightarrow> (Inl err, w1)
         | (Inr _, w1) \<Rightarrow>
             (let label = make_label info
              in if label \<noteq> [] then
                   (case getTextSize e label w1 of
                      (Inl err, w2) \<Rightarrow> (Inl err, w2)
                    | (Inr (label_size, _), w2) \<Rightarrow>
                        (case draw_on r
                                (\<lambda>img. cv2_rectangle e img (x1, y1 - 20) (x1 + fst label_size, y1)
                                         (255, 0, 0) (- 1))
                                (Rectangle r (x1, y1 - 20) (x1 + fst label_size, y1) (255, 0, 0) (- 1))
                                w2 of
                           (Inl err, w3) \<Rightarrow> (Inl err, w3)
                         | (Inr _, w3) \<Rightarrow>
                             draw_on r (\<lambda>img. cv2_putText e img label (x1, y1 - 5) (255, 255, 255))
                               (PutText r label (x1, y1 - 5) (255, 255, 255)) w3))
                 else (Inr (), w1))))"

text \<open>
  One round of the loop of lines 118 to 174, for the \<open>i\<close>-th box: \<open>a\<close> is the address
  of \<open>image\<close>, \<open>r\<close> of \<open>result_img\<close>, \<open>faces\<close> is \<open>face_data\<close>.
  \<open>scores[i]\<close> is a float on both detector paths, so the confidence is
  \<open>float(scores[i])\<close>; the alternative \<open>1.0\<close> of line 133 is never taken.
\<close>

definition too_small :: "image \<Rightarrow> bool" where
  "too_small face_img = (img_size face_img = 0 \<or> shape0 face_img < 20 \<or> shape1 face_img < 20)"

definition process_box ::
  "env \<Rightarrow> nat \<Rightarrow> nat \<Rightarrow> real list \<Rightarrow> nat \<Rightarrow> raw_box \<Rightarrow> face_info list \<Rightarrow> world
     \<Rightarrow> (error + face_info list) \<times> world" where
  "process_box e a r scs i b faces w =
     (case to_box b of
        Inl err \<Rightarrow> (Inl err, w)
      | Inr (x1, y1, x2, y2) \<Rightarrow>
          (let face_img = crop (buf w a) y1 y2 x1 x2
           in if too_small face_img then (Inr faces, w)
              else
                (case py_index scs i of
                   Inl err \<Rightarrow> (Inl err, w)
                 | Inr s \<Rightarrow>
                     (case analyze_face e face_img
                             \<lparr>box = (x1, y1, x2, y2), confidence = s, emotion = None, age = None,
                              gender = None\<rparr> w of
                        (Inl err, w1) \<Rightarrow> (Inl err, w1)
                      | (Inr info, w1) \<Rightarrow>
                          (case annotate e r info w1 of
                             (Inl err, w2) \<Rightarrow> (Inl err, w2)
                           | (Inr _, w2) \<Rightarrow> (Inr (faces @ [info]), w2))))))"

fun face_loop ::
  "env \<Rightarrow> nat \<Rightarrow> nat \<Rightarrow> real list \<Rightarrow> nat \<Rightarrow> raw_box list \<Rightarrow> face_info list \<Rightarrow> world
     \<Rightarrow> (error + face_info list) \<times> world" where
  "face_loop e a r scs i [] faces w = (Inr faces, w)"
| "face_loop e a r scs i (b # bs) faces w =
     (case process_box e a r scs i b faces w of
        (Inl err, w') \<Rightarrow> (Inl err, w')
      | (Inr faces', w') \<Rightarrow> face_loop e a r scs (Suc i) bs faces' w')"

text \<open>Lines 114 to 176, once the detector has answered.\<close>

definition analyze_and_draw ::
  "env \<Rightarrow> nat \<Rightarrow> nat \<Rightarrow> raw_box list \<times> real list \<Rightarrow> world \<Rightarrow> (error + nat \<times> face_info list) \<times> world" where
  "analyze_and_draw e a r d w =
     (let w1 = (if DEEPFACE_AVAILABLE e then ensure_models_loaded e w else w)
      in case face_loop e a r (snd d) 0 (fst d) [] w1 of
           (Inl err, w2) \<Rightarrow> (Inl err, w2)
         | (Inr faces, w2) \<Rightarrow> (Inr (r, faces), w2))"

text \<open>
  \<open>detect_faces\<close>. The caller's buffer enters the store at address \<open>a\<close>;
  \<open>image.copy()\<close> allocates the buffer \<open>r\<close>. The result is the address of
  \<open>result_img\<close> with \<open>face_data\<close>, or the exception that left the function.
\<close>

definition detect_faces :: "env \<Rightarrow> image \<Rightarrow> world \<Rightarrow> (error + nat \<times> face_info list) \<times> world" where
  "detect_faces e img w =
     (case alloc img w of
        (a, w0) \<Rightarrow>
          (case alloc (buf w0 a) w0 of
             (r, w1) \<Rightarrow>
               (if torch_available w1 then
                  (case detect_faces_torch e (buf w1 a) of
                     Inl err \<Rightarrow> (Inl err, w1)
                   | Inr d \<Rightarrow> analyze_and_draw e a r d w1)
                else if face_cascade w1 then
                  (case detect_faces_opencv e (buf w1 a) of
                     Inl err \<Rightarrow> (Inl err, w1)
                   | Inr d \<Rightarrow> analyze_and_draw e a r d w1)
                else (Inr (r, []), w1))))"

section \<open>Notions used to state the properties\<close>

text \<open>The crop \<open>image[y1:y2, x1:x2]\<close> that a box cuts out of an image.\<close>

definition crop_box :: "image \<Rightarrow> int_box \<Rightarrow> image" where
  "crop_box img b = (case b of (x1, y1, x2, y2) \<Rightarrow> crop img y1 y2 x1 x2)"

text \<open>The box and the confidence of a face record.\<close>

definition summary :: "face_info \<Rightarrow> int_box \<times> real" where
  "summary f = (box f, confidence f)"

text \<open>A converted detection survives when its crop passes the test of line 128.\<close>

definition survives :: "image \<Rightarrow> int_box \<times> real \<Rightarrow> bool" where
  "survives img c = (\<not> too_small (crop_box img (fst c)))"

text \<open>
  What the selected detector produced, before any filtering: the boxes of the
  prediction with their scores on the learned path, the rectangles with score 1 on the
  cascade path.
\<close>

definition raw_detections :: "env \<Rightarrow> world \<Rightarrow> image \<Rightarrow> (raw_box \<times> real) list" where
  "raw_detections e w img =
     (if torch_available w then
        (case model_call e img of Inr (p # _) \<Rightarrow> zip (boxes p) (scores p) | _ \<Rightarrow> [])
      else if face_cascade w then
        (case detect_faces_opencv e img of Inr d \<Rightarrow> zip (fst d) (snd d) | Inl _ \<Rightarrow> [])
      else [])"

text \<open>The detections whose four coordinates convert with \<open>int()\<close>, converted.\<close>

definition converted :: "(raw_box \<times> real) list \<Rightarrow> (int_box \<times> real) list" where
  "converted ds = List.map_filter (\<lambda>(b, s). case to_box b of Inr c \<Rightarrow> Some (c, s) | Inl _ \<Rightarrow> None) ds"

text \<open>\<open>boxes\<close> and \<open>scores\<close> as they stand at line 114 (empty when there are none).\<close>

definition detections :: "env \<Rightarrow> world \<Rightarrow> image \<Rightarrow> raw_box list \<times> real list" where
  "detections e w img =
     (if torch_available w then
        (case detect_faces_torch e img of Inr d \<Rightarrow> d | Inl _ \<Rightarrow> ([], []))
      else if face_cascade w then
        (case detect_faces_opencv e img of Inr d \<Rightarrow> d | Inl _ \<Rightarrow> ([], []))
      else ([], []))"

text \<open>Two lists of buffers that agree everywhere but at address \<open>r\<close>.\<close>

definition same_but :: "nat \<Rightarrow> image list \<Rightarrow> image list \<Rightarrow> bool" where
  "same_but r xs ys = (\<exists>im. ys = xs[r := im])"

text \<open>A drawing call on the buffer at address \<open>a\<close>.\<close>

fun draws_on :: "nat \<Rightarrow> event \<Rightarrow> bool" where
  "draws_on a (Rectangle t p q c th) = (t = a)"
| "draws_on a (PutText t s p c) = (t = a)"
| "draws_on a (Analyze im acts) = False"
| "draws_on a (GetTextSize s) = False"

text \<open>A log that grew without any drawing call on the buffer at address \<open>a\<close>.\<close>

definition spares :: "nat \<Rightarrow> event list \<Rightarrow> event list \<Rightarrow> bool" where
  "spares a xs ys = (\<exists>evs. ys = xs @ evs \<and> \<not> list_ex (draws_on a) evs)"

text \<open>
  The call \<open>ev\<close>, made as the last call of the world \<open>w'\<close>, raised \<open>err\<close> and let
  it go: a drawing primitive raised it on the buffer it was given, or
  \<open>DeepFace.analyze\<close> raised it after the calls made before, and it is not an
  \<open>Exception\<close>.
\<close>

fun call_raises :: "env \<Rightarrow> world \<Rightarrow> event \<Rightarrow> error \<Rightarrow> bool" where
  "call_raises e w' (Rectangle t p q c th) err = (cv2_rectangle e (buf w' t) p q c th = Inl err)"
| "call_raises e w' (PutText t s p c) err = (cv2_putText e (buf w' t) s p c = Inl err)"
| "call_raises e w' (GetTextSize s) err = (cv2_getTextSize e s = Inl err)"
| "call_raises e w' (Analyze fi acts) err =
     (DeepFace_analyze e (butlast (calls w')) fi acts = Inl err \<and> \<not> is_exception err)"

definition last_call_raised :: "env \<Rightarrow> world \<Rightarrow> error \<Rightarrow> bool" where
  "last_call_raised e w' err =
     (calls w' \<noteq> [] \<and> call_raises e w' (last (calls w')) err)"

text \<open>
  The label as the specification words it: the fields that are not null, in the order
  emotion, age, gender, each as \<open>Name: value\<close>, separated by single spaces.
\<close>

fun join_space :: "string list \<Rightarrow> string" where
  "join_space [] = []"
| "join_space [x] = x"
| "join_space (x # y # ys) = x @ '' '' @ join_space (y # ys)"

definition spec_label :: "face_info \<Rightarrow> string" where
  "spec_label info =
     join_space
       ((case emotion info of None \<Rightarrow> [] | Some v \<Rightarrow> [''Emotion: '' @ py_format (Some v)]) @
        (case age info of None \<Rightarrow> [] | Some v \<Rightarrow> [''Age: '' @ py_format (Some v)]) @
        (case gender info of None \<Rightarrow> [] | Some v \<Rightarrow> [''Gender: '' @ py_format (Some v)]))"

text \<open>\<open>s.rstrip(' ')\<close>: the string without the spaces at its end.\<close>

definition rstrip :: "string \<Rightarrow> string" where
  "rstrip s = rev (dropWhile (\<lambda>c. c = CHR '' '') (rev s))"

text \<open>A record in which every field that Python reads as false is set to null.\<close>

definition keep_truthy :: "pyval option \<Rightarrow> pyval option" where
  "keep_truthy v = (if truthy v then v else None)"

definition truthy_fields :: "face_info \<Rightarrow> face_info" where
  "truthy_fields info =
     info\<lparr>emotion := keep_truthy (emotion info), age := keep_truthy (age info),
          gender := keep_truthy (gender info)\<rparr>"

section \<open>Example inputs\<close>

text \<open>
  A backend in which every call succeeds: the detector finds three objects on any
  image (the third below the threshold, the second too small), the cascade one face,
  the analysis a happy man of 30; drawing leaves the pixels alone.
\<close>

definition env0 :: env where
  "env0 = \<lparr>DEEPFACE_AVAILABLE = True,
     model_call = (\<lambda>_. Inr [\<lparr>boxes = [(FloatNum (21 / 2), FloatNum 10, FloatNum 90, FloatNum (181 / 2)),
                                       (FloatNum 0, FloatNum 0, FloatNum 15, FloatNum 15),
                                       (FloatNum 20, FloatNum 20, FloatNum 60, FloatNum 60)],
                              labels = [1, 1, 18], scores = [19 / 20, 9 / 10, 1 / 2]\<rparr>]),
     detectMultiScale = (\<lambda>_. Inr [(10, 10, 80, 80)]),
     DeepFace_analyze = (\<lambda>hist img acts.
        if acts = [Emotion] then Inr [[''dominant_emotion'' \<mapsto> PyStr ''happy'']]
        else Inr [[''age'' \<mapsto> PyInt 30, ''dominant_gender'' \<mapsto> PyStr ''Man'']]),
     cv2_rectangle = (\<lambda>im p q c t. Inr im),
     cv2_getTextSize = (\<lambda>s. Inr ((9 * int (length s), 11), 4)),
     cv2_putText = (\<lambda>im s p c. Inr im)\<rparr>"

text \<open>The detector raises.\<close>

definition env_crash :: env where
  "env_crash = env0\<lparr>model_call := (\<lambda>_. Inl (BackendError ''inference failed''))\<rparr>"

text \<open>The analysis service raises on every call.\<close>

definition analysis_down :: "event list \<Rightarrow> image \<Rightarrow> action list \<Rightarrow> error + analysis list" where
  "analysis_down hist img acts = Inl (BackendError ''analysis failed'')"

definition env_down :: env where
  "env_down = env0\<lparr>DeepFace_analyze := analysis_down\<rparr>"

text \<open>The emotion analysis raises, the age and gender analysis succeeds.\<close>

definition env_sad :: env where
  "env_sad = env0\<lparr>DeepFace_analyze := (\<lambda>hist img acts.
      if acts = [Emotion] then Inl (BackendError ''emotion failed'')
      else Inr [[''age'' \<mapsto> PyInt 30, ''dominant_gender'' \<mapsto> PyStr ''Man'']])\<rparr>"

text \<open>Every call of the analysis service is interrupted from the keyboard.\<close>

definition env_interrupt :: env where
  "env_interrupt = env0\<lparr>DeepFace_analyze := (\<lambda>hist img acts. Inl KeyboardInterrupt)\<rparr>"

text \<open>
  The emotion model cannot be loaded; the age and gender analysis finds an age of 0,
  with a gender and without one.
\<close>

definition env_age0 :: env where
  "env_age0 = env0\<lparr>DeepFace_analyze := (\<lambda>hist img acts.
      if acts = [Emotion] then Inl (BackendError ''emotion model missing'')
      else Inr [[''age'' \<mapsto> PyInt 0, ''dominant_gender'' \<mapsto> PyStr ''Man'']])\<rparr>"

definition env_age0_only :: env where
  "env_age0_only = env0\<lparr>DeepFace_analyze := (\<lambda>hist img acts.
      if acts = [Emotion] then Inl (BackendError ''emotion model missing'')
      else Inr [[''age'' \<mapsto> PyInt 0]])\<rparr>"

text \<open>
  A fresh pipeline with both detectors, with the cascade only, with no detector; one
  whose emotion model alone is ready, and one whose models are both ready.
\<close>

definition w0 :: world where
  "w0 = \<lparr>torch_available = True, face_cascade = True, emotion_model_loaded = False,
          age_gender_model_loaded = False, bufs = [], calls = []\<rparr>"

definition w_cascade :: world where
  "w_cascade = \<lparr>torch_available = False, face_cascade = True, emotion_model_loaded = False,
          age_gender_model_loaded = False, bufs = [], calls = []\<rparr>"

definition w_none :: world where
  "w_none = \<lparr>torch_available = False, face_cascade = False, emotion_model_loaded = False,
          age_gender_model_loaded = False, bufs = [], calls = []\<rparr>"

definition w_half :: world where
  "w_half = \<lparr>torch_available = True, face_cascade = True, emotion_model_loaded = True,
          age_gender_model_loaded = False, bufs = [], calls = []\<rparr>"

definition w_ready :: world where
  "w_ready = \<lparr>torch_available = True, face_cascade = True, emotion_model_loaded = True,
          age_gender_model_loaded = True, bufs = [], calls = []\<rparr>"

definition w_ready2 :: world where
  "w_ready2 = w_ready\<lparr>bufs := [sample_img, sample_img]\<rparr>"

text \<open>The first box of the example prediction, and the crop it cuts out of the example image.\<close>

definition box0 :: raw_box where
  "box0 = (FloatNum (21 / 2), FloatNum 10, FloatNum 90, FloatNum (181 / 2))"

definition crop80 :: image where
  "crop80 = crop sample_img 10 90 10 90"

definition face0 :: face_info where
  "face0 = \<lparr>box = (10, 10, 90, 90), confidence = 19 / 20, emotion = Some (PyStr ''happy''),
     age = Some (PyInt 30), gender = Some (PyStr ''Man'')\<rparr>"

definition face1 :: face_info where
  "face1 = \<lparr>box = (10, 10, 90, 90), confidence = 1, emotion = Some (PyStr ''happy''),
     age = Some (PyInt 30), gender = Some (PyStr ''Man'')\<rparr>"

definition face_bare :: face_info where
  "face_bare = \<lparr>box = (10, 10, 90, 90), confidence = 19 / 20, emotion = None, age = None,
     gender = None\<rparr>"

definition face_age0 :: face_info where
  "face_age0 = \<lparr>box = (10, 10, 90, 90), confidence = 19 / 20, emotion = None,
     age = Some (PyInt 0), gender = Some (PyStr ''Man'')\<rparr>"

definition face_age0_only :: face_info where
  "face_age0_only = \<lparr>box = (10, 10, 90, 90), confidence = 19 / 20, emotion = None,
     age = Some (PyInt 0), gender = None\<rparr>"

section \<open>Auxiliary facts\<close>

subsection \<open>Which buffers an operation can change\<close>

lemma same_but_refl [simp]: "same_but r xs xs"
  unfolding same_but_def by (rule exI[of _ "xs ! r"]) simp

lemma same_but_update [simp]: "same_but r xs (xs[r := im])"
  unfolding same_but_def by blast

lemma same_but_trans: "same_but r xs ys \<Longrightarrow> same_but r ys zs \<Longrightarrow> same_but r xs zs"
  unfolding same_but_def by auto

lemma same_but_nth: "same_but r xs ys \<Longrightarrow> a \<noteq> r \<Longrightarrow> ys ! a = xs ! a"
  unfolding same_but_def by auto

lemma analyze_bufs [simp]: "bufs (snd (analyze e img acts w)) = bufs w"
  by (simp add: analyze_def)

lemma analyze_calls [simp]: "calls (snd (analyze e img acts w)) = calls w @ [Analyze img acts]"
  by (simp add: analyze_def)

lemma ensure_bufs [simp]: "bufs (ensure_models_loaded e w) = bufs w"
  by (simp add: ensure_models_loaded_def analyze_def Let_def split: sum.splits prod.splits)

lemma emotion_step_bufs: "emotion_step e fi info w = (x, info', w') \<Longrightarrow> bufs w' = bufs w"
  by (auto simp: emotion_step_def analyze_def split: if_splits sum.splits list.splits option.splits)

lemma age_gender_step_bufs: "age_gender_step e fi info w = (x, info', w') \<Longrightarrow> bufs w' = bufs w"
  by (auto simp: age_gender_step_def analyze_def split: if_splits sum.splits list.splits option.splits)

lemma emotion_step_info: "emotion_step e fi info w = (x, info', w') \<Longrightarrow> box info' = box info \<and> confidence info' = confidence info"
  by (auto simp: emotion_step_def analyze_def split: if_splits sum.splits list.splits option.splits)

lemma age_gender_step_info: "age_gender_step e fi info w = (x, info', w') \<Longrightarrow> box info' = box info \<and> confidence info' = confidence info"
  by (auto simp: age_gender_step_def analyze_def split: if_splits sum.splits list.splits option.splits)

lemma except_Exception_world: "except_Exception err info w = (x, w') \<Longrightarrow> w' = w"
  by (auto simp: except_Exception_def split: if_splits)

lemma except_Exception_Inr: "except_Exception err info w = (Inr info', w') \<Longrightarrow> info' = info"
  by (auto simp: except_Exception_def split: if_splits)

lemma analyze_face_bufs: "analyze_face e fi info w = (x, w') \<Longrightarrow> bufs w' = bufs w"
  by (auto simp: analyze_face_def split: if_splits prod.splits option.splits
      dest!: emotion_step_bufs age_gender_step_bufs except_Exception_world)

lemma analyze_face_info:
  "analyze_face e fi info w = (Inr info', w') \<Longrightarrow> box info' = box info \<and> confidence info' = confidence info"
  by (auto simp: analyze_face_def split: if_splits prod.splits option.splits
      dest!: emotion_step_info age_gender_step_info except_Exception_Inr)

lemma draw_on_bufs: "draw_on r f ev w = (x, w') \<Longrightarrow> same_but r (bufs w) (bufs w')"
  by (auto simp: draw_on_def Let_def split: sum.splits)

lemma annotate_bufs: "annotate e r info w = (x, w') \<Longrightarrow> same_but r (bufs w) (bufs w')"
  apply (cases "box info")
  apply (auto simp: annotate_def Let_def getTextSize_def split: prod.splits sum.splits if_splits
       dest!: draw_on_bufs)
  apply (blast intro: same_but_trans)+
  done

lemma process_box_bufs: "process_box e a r scs i b faces w = (x, w') \<Longrightarrow> same_but r (bufs w) (bufs w')"
  by (auto simp: process_box_def Let_def split: prod.splits sum.splits if_splits
      dest!: annotate_bufs analyze_face_bufs)

lemma face_loop_bufs: "face_loop e a r scs i bs faces w = (x, w') \<Longrightarrow> same_but r (bufs w) (bufs w')"
proof (induction bs arbitrary: i faces w)
  case Nil
  then show ?case by simp
next
  case (Cons b bs)
  show ?case
  proof (cases "process_box e a r scs i b faces w")
    case (Pair res w1)
    then have 1: "same_but r (bufs w) (bufs w1)" by (rule process_box_bufs)
    show ?thesis
    proof (cases res)
      case (Inl err)
      with Pair Cons.prems 1 show ?thesis by simp
    next
      case (Inr faces1)
      with Pair Cons.prems have "face_loop e a r scs (Suc i) bs faces1 w1 = (x, w')" by simp
      then have "same_but r (bufs w1) (bufs w')" by (rule Cons.IH)
      with 1 show ?thesis by (rule same_but_trans)
    qed
  qed
qed

subsection \<open>Which calls an operation can make\<close>

lemma spares_refl [simp]: "spares a xs xs"
  by (simp add: spares_def)

lemma spares_trans: "spares a xs ys \<Longrightarrow> spares a ys zs \<Longrightarrow> spares a xs zs"
  by (auto simp: spares_def)

lemma spares_snoc: "\<not> draws_on a ev \<Longrightarrow> spares a xs (xs @ [ev])"
  by (simp add: spares_def)

lemma spares_drop: "spares a xs ys \<Longrightarrow> \<not> list_ex (draws_on a) (drop (length xs) ys)"
  by (auto simp: spares_def)

lemma analyze_spares: "analyze e img acts w = (x, w') \<Longrightarrow> spares a (calls w) (calls w')"
  by (auto simp: analyze_def spares_snoc)

lemma ensure_spares: "spares a (calls w) (calls (ensure_models_loaded e w))"
  by (auto simp: ensure_models_loaded_def analyze_def Let_def spares_def split: sum.splits)

lemma emotion_step_spares: "emotion_step e fi info w = (x, info', w') \<Longrightarrow> spares a (calls w) (calls w')"
  by (auto simp: emotion_step_def analyze_def spares_def split: if_splits sum.splits list.splits option.splits)

lemma age_gender_step_spares: "age_gender_step e fi info w = (x, info', w') \<Longrightarrow> spares a (calls w) (calls w')"
  by (auto simp: age_gender_step_def analyze_def spares_def split: if_splits sum.splits list.splits option.splits)

lemma analyze_face_spares: "analyze_face e fi info w = (x, w') \<Longrightarrow> spares a (calls w) (calls w')"
  apply (auto simp: analyze_face_def split: if_splits prod.splits option.splits
      dest!: emotion_step_spares[where a=a] age_gender_step_spares[where a=a] except_Exception_world)
   apply (blast intro: spares_trans)+
  done

lemma draw_on_spares:
  "draw_on r f ev w = (x, w') \<Longrightarrow> \<not> draws_on a ev \<Longrightarrow> spares a (calls w) (calls w')"
  by (auto simp: draw_on_def Let_def spares_def split: sum.splits)

lemma annotate_spares:
  assumes "annotate e r info w = (x, w')" and "a \<noteq> r"
  shows "spares a (calls w) (calls w')"
proof -
  obtain x1 y1 x2 y2 where b: "box info = (x1, y1, x2, y2)" by (cases "box info")
  have d: "spares a (calls u) (calls u')"
    if "draw_on r f (Rectangle r p q c t) u = (y, u')" for f p q c t u y u'
    using that assms(2) by (auto dest: draw_on_spares[where a=a])
  have d': "spares a (calls u) (calls u')"
    if "draw_on r f (PutText r s p c) u = (y, u')" for f p s c u y u'
    using that assms(2) by (auto dest: draw_on_spares[where a=a])
  have g: "spares a (calls u) (calls u')" if "getTextSize e s u = (y, u')" for s u y u'
    using that by (auto simp: getTextSize_def spares_snoc)
  show ?thesis
    using assms(1) unfolding annotate_def b Let_def
    by (auto split: prod.splits sum.splits if_splits dest!: d d' g) (blast intro: spares_trans)+
qed

lemma process_box_spares:
  "process_box e a r scs i b faces w = (x, w') \<Longrightarrow> a \<noteq> r \<Longrightarrow> spares a (calls w) (calls w')"
  apply (auto simp: process_box_def Let_def split: prod.splits sum.splits if_splits
      dest!: annotate_spares[where a=a] analyze_face_spares[where a=a])
     apply (blast intro: spares_trans)+
  done

lemma face_loop_spares:
  "face_loop e a r scs i bs faces w = (x, w') \<Longrightarrow> a \<noteq> r \<Longrightarrow> spares a (calls w) (calls w')"
proof (induction bs arbitrary: i faces w)
  case Nil
  then show ?case by simp
next
  case (Cons b bs)
  obtain res w1 where pb: "process_box e a r scs i b faces w = (res, w1)"
    by (cases "process_box e a r scs i b faces w")
  then have 1: "spares a (calls w) (calls w1)" using Cons.prems(2) by (rule process_box_spares)
  show ?case
  proof (cases res)
    case (Inl err)
    with pb Cons.prems 1 show ?thesis by simp
  next
    case (Inr faces1)
    with pb Cons.prems have "face_loop e a r scs (Suc i) bs faces1 w1 = (x, w')" by simp
    then have "spares a (calls w1) (calls w')" using Cons.prems(2) by (rule Cons.IH)
    with 1 show ?thesis by (rule spares_trans)
  qed
qed

lemma analyze_and_draw_frame:
  assumes "analyze_and_draw e a r d w = (x, w')" and "a \<noteq> r"
  shows "same_but r (bufs w) (bufs w') \<and> spares a (calls w) (calls w')"
proof -
  let ?w1 = "if DEEPFACE_AVAILABLE e then ensure_models_loaded e w else w"
  obtain y where fl: "face_loop e a r (snd d) 0 (fst d) [] ?w1 = (y, w')"
    using assms(1) by (auto simp: analyze_and_draw_def Let_def split: prod.splits sum.splits)
  have b: "bufs ?w1 = bufs w" by simp
  have c: "spares a (calls w) (calls ?w1)" by (simp add: ensure_spares)
  from face_loop_bufs[OF fl] face_loop_spares[OF fl assms(2)] b c show ?thesis
    by (auto intro: spares_trans)
qed

subsection \<open>The records the loop appends\<close>

lemma process_box_to_box:
  "process_box e a r scs i b faces w = (Inr faces', w') \<Longrightarrow> \<exists>c. to_box b = Inr c"
  by (cases "to_box b") (auto simp: process_box_def)

lemma process_box_faces:
  assumes "process_box e a r scs i b faces w = (Inr faces', w')" and "to_box b = Inr c"
  shows "if survives (buf w a) (c, s0)
         then i < length scs \<and> (\<exists>info. faces' = faces @ [info] \<and> summary info = (c, scs ! i))
         else faces' = faces"
proof -
  obtain x1 y1 x2 y2 where c: "c = (x1, y1, x2, y2)" by (cases c)
  show ?thesis
    using assms unfolding c
    by (auto simp: process_box_def Let_def crop_box_def py_index_def summary_def survives_def
        split: prod.splits sum.splits if_splits dest!: analyze_face_info)
qed

lemma face_loop_result:
  assumes "face_loop e a r scs i bs faces w = (Inr faces', w')" and "a \<noteq> r"
  shows "\<exists>cs. map to_box bs = map Inr cs \<and>
           map summary faces' = map summary faces @ filter (survives (buf w a)) (zip cs (drop i scs))"
  using assms(1)
proof (induction bs arbitrary: i faces w)
  case Nil
  then show ?case by simp
next
  case (Cons b bs)
  obtain res w1 where pb: "process_box e a r scs i b faces w = (res, w1)"
    by (cases "process_box e a r scs i b faces w")
  with Cons.prems obtain faces1 where res: "res = Inr faces1"
    by (cases res) auto
  with pb Cons.prems have loop: "face_loop e a r scs (Suc i) bs faces1 w1 = (Inr faces', w')"
    by simp
  have "same_but r (bufs w) (bufs w1)" using pb by (rule process_box_bufs)
  then have same: "buf w1 a = buf w a"
    using \<open>a \<noteq> r\<close> by (simp add: buf_def same_but_nth)
  from Cons.IH[OF loop] same obtain cs where
    cs: "map to_box bs = map Inr cs"
    "map summary faces' = map summary faces1 @ filter (survives (buf w a)) (zip cs (drop (Suc i) scs))"
    by auto
  from process_box_to_box[OF pb[unfolded res]] obtain c where c1: "to_box b = Inr c"
    by blast
  note c = c1 process_box_faces[OF pb[unfolded res] c1, of 0]
  have surv: "survives (buf w a) (c, s) = survives (buf w a) (c, 0)" for s
    by (simp add: survives_def)
  have "map summary faces' = map summary faces @ filter (survives (buf w a)) (zip (c # cs) (drop i scs))"
  proof (cases "survives (buf w a) (c, 0)")
    case True
    with c(2) obtain info where i: "i < length scs" "faces1 = faces @ [info]" "summary info = (c, scs ! i)"
      by auto
    from i(1) have "drop i scs = scs ! i # drop (Suc i) scs"
      by (simp add: Cons_nth_drop_Suc)
    with cs(2) i True surv show ?thesis by simp
  next
    case False
    with c(2) have f: "faces1 = faces" by simp
    show ?thesis
    proof (cases "drop i scs")
      case Nil
      then have "drop (Suc i) scs = []" by simp
      with Nil cs(2) f show ?thesis by simp
    next
      case (Cons s ss)
      then have "drop (Suc i) scs = ss"
        by (metis drop_Suc list.sel(3) tl_drop)
      with Cons cs(2) f False surv show ?thesis by simp
    qed
  qed
  with cs(1) c(1) show ?case
    by (intro exI[of _ "c # cs"]) simp
qed

subsection \<open>The detectors\<close>

lemma mask_index_zip:
  "length xs = length ys \<Longrightarrow>
   mask_index xs (map P ys) = Inr (map fst (filter (\<lambda>(x, y). P y) (zip xs ys)))"
  by (induction xs ys rule: list_induct2) (auto simp: mask_index_def)

lemma mask_index_self: "mask_index ys (map P ys) = Inr (filter P ys)"
  by (induction ys) (auto simp: mask_index_def)

lemma mask_index_Inr: "mask_index xs m = Inr zs \<Longrightarrow> length m = length xs"
  by (auto simp: mask_index_def split: if_splits)

lemma filter_zip_snd:
  "length xs = length ys \<Longrightarrow>
   zip (map fst (filter (\<lambda>(x, y). P y) (zip xs ys))) (filter P ys) = filter (\<lambda>(x, y). P y) (zip xs ys)"
  by (induction xs ys rule: list_induct2) auto

lemma length_filter_zip_snd:
  "length xs = length ys \<Longrightarrow>
   length (filter (\<lambda>(x, y). P y) (zip xs ys)) = length (filter P ys)"
  by (induction xs ys rule: list_induct2) auto

lemma detect_faces_torch_Inr:
  assumes "detect_faces_torch e img = Inr d"
  shows "\<exists>p ps. model_call e img = Inr (p # ps) \<and> length (boxes p) = length (scores p) \<and>
           length (fst d) = length (snd d) \<and>
           zip (fst d) (snd d) = filter (\<lambda>(b, s). 7 / 10 < s) (zip (boxes p) (scores p)) \<and>
           snd d = filter (\<lambda>s. 7 / 10 < s) (scores p)"
proof -
  define P where "P = (\<lambda>s::real. 7 / 10 < s)"
  have unf: "detect_faces_torch e img =
     (case model_call e img of
        Inl err \<Rightarrow> Inl err
      | Inr [] \<Rightarrow> Inl IndexError
      | Inr (p # _) \<Rightarrow>
          (case mask_index (boxes p) (map P (scores p)) of
             Inl err \<Rightarrow> Inl err
           | Inr bs \<Rightarrow>
               (case mask_index (scores p) (map P (scores p)) of
                  Inl err \<Rightarrow> Inl err
                | Inr ss \<Rightarrow> Inr (bs, ss))))"
    unfolding detect_faces_torch_def P_def ..
  from assms obtain p ps where m: "model_call e img = Inr (p # ps)"
    unfolding unf by (auto split: sum.splits list.splits)
  with assms obtain bs where bs: "mask_index (boxes p) (map P (scores p)) = Inr bs"
    unfolding unf by (auto split: sum.splits)
  then have len: "length (boxes p) = length (scores p)"
    by (auto dest: mask_index_Inr)
  from assms m bs have d: "d = (bs, filter P (scores p))"
    unfolding unf by (auto simp: mask_index_self)
  from bs len have bs': "bs = map fst (filter (\<lambda>(b, s). P s) (zip (boxes p) (scores p)))"
    by (simp add: mask_index_zip)
  have z: "zip (fst d) (snd d) = filter (\<lambda>(b, s). P s) (zip (boxes p) (scores p))"
    unfolding d bs' using len by (simp add: filter_zip_snd)
  have l: "length (fst d) = length (snd d)"
    unfolding d bs' using len by (simp add: length_filter_zip_snd)
  have sd: "snd d = filter P (scores p)"
    unfolding d by simp
  from m len l z sd show ?thesis
    unfolding P_def by blast
qed

lemma detect_faces_opencv_Inr:
  assumes "detect_faces_opencv e img = Inr d"
  shows "\<exists>rects. detectMultiScale e img = Inr rects \<and> length (fst d) = length rects \<and>
           snd d = replicate (length rects) 1 \<and> (\<forall>b \<in> set (fst d). \<exists>c. to_box b = Inr c)"
  using assms
  by (auto simp: detect_faces_opencv_def to_box_def map_replicate_const split: sum.splits)

lemma detect_faces_unfold:
  "detect_faces e img w =
     (let a = length (bufs w); r = Suc a; w1 = w\<lparr>bufs := bufs w @ [img, img]\<rparr>
      in if torch_available w then
           (case detect_faces_torch e img of
              Inl err \<Rightarrow> (Inl err, w1)
            | Inr d \<Rightarrow> analyze_and_draw e a r d w1)
         else if face_cascade w then
           (case detect_faces_opencv e img of
              Inl err \<Rightarrow> (Inl err, w1)
            | Inr d \<Rightarrow> analyze_and_draw e a r d w1)
         else (Inr (r, []), w1))"
  by (simp add: detect_faces_def alloc_def buf_def Let_def nth_append split: sum.splits)

lemma analyze_and_draw_Inr:
  assumes "analyze_and_draw e a r d w = (Inr (r', faces), w')"
  shows "r' = r \<and> (\<exists>w1. bufs w1 = bufs w \<and> face_loop e a r (snd d) 0 (fst d) [] w1 = (Inr faces, w'))"
  using assms
  by (auto simp: analyze_and_draw_def Let_def split: prod.splits sum.splits if_splits
      intro: exI[of _ "ensure_models_loaded e w"] exI[of _ w])

lemma detect_faces_summary:
  assumes "detect_faces e img w = (Inr (r, faces), w')"
  shows "\<exists>cs. map to_box (fst (detections e w img)) = map Inr cs \<and>
           map summary faces = filter (survives img) (zip cs (snd (detections e w img)))"
proof -
  let ?a = "length (bufs w)"
  let ?w1 = "w\<lparr>bufs := bufs w @ [img, img]\<rparr>"
  have loop: "\<exists>cs. map to_box (fst d) = map Inr cs \<and>
           map summary faces = filter (survives img) (zip cs (snd d))"
    if "analyze_and_draw e ?a (Suc ?a) d ?w1 = (Inr (r, faces), w')" for d
  proof -
    from analyze_and_draw_Inr[OF that] obtain w2 where
      w2: "bufs w2 = bufs ?w1" "face_loop e ?a (Suc ?a) (snd d) 0 (fst d) [] w2 = (Inr faces, w')"
      by blast
    have "buf w2 ?a = img" using w2(1) by (simp add: buf_def nth_append)
    with face_loop_result[OF w2(2)] show ?thesis by simp
  qed
  show ?thesis
  proof (cases "torch_available w")
    case True
    with assms obtain d where "detect_faces_torch e img = Inr d"
      "analyze_and_draw e ?a (Suc ?a) d ?w1 = (Inr (r, faces), w')"
      by (auto simp: detect_faces_unfold Let_def split: sum.splits)
    with loop[of d] True show ?thesis by (simp add: detections_def)
  next
    case False
    show ?thesis
    proof (cases "face_cascade w")
      case True
      with assms False obtain d where "detect_faces_opencv e img = Inr d"
        "analyze_and_draw e ?a (Suc ?a) d ?w1 = (Inr (r, faces), w')"
        by (auto simp: detect_faces_unfold Let_def split: sum.splits)
      with loop[of d] True False show ?thesis by (simp add: detections_def)
    next
      case c: False
      with assms False show ?thesis
        by (simp add: detect_faces_unfold Let_def detections_def)
    qed
  qed
qed

lemma detect_faces_summary':
  assumes "fst (detect_faces e img w) = Inr (r, faces)"
  shows "\<exists>cs. map to_box (fst (detections e w img)) = map Inr cs \<and>
           map summary faces = filter (survives img) (zip cs (snd (detections e w img)))"
  using detect_faces_summary[of e img w r faces "snd (detect_faces e img w)"] assms
  by (simp add: prod_eq_iff)

lemma converted_zip:
  "map to_box bs = map Inr cs \<Longrightarrow> converted (zip bs ss) = zip cs ss"
proof (induction bs arbitrary: cs ss)
  case Nil
  then show ?case by (simp add: converted_def map_filter_simps)
next
  case (Cons b bs)
  then obtain c cs' where cs: "cs = c # cs'" "to_box b = Inr c" "map to_box bs = map Inr cs'"
    by (cases cs) auto
  show ?case
  proof (cases ss)
    case Nil
    then show ?thesis by (simp add: converted_def map_filter_simps)
  next
    case (Cons s ss')
    with cs Cons.IH[OF cs(3), of ss'] show ?thesis
      by (simp add: converted_def map_filter_simps)
  qed
qed

lemma subseq_converted: "subseq xs ys \<Longrightarrow> subseq (converted xs) (converted ys)"
  unfolding converted_def map_filter_def
  by (intro subseq_map subseq_filter)

lemma length_converted: "length (converted xs) \<le> length xs"
  unfolding converted_def map_filter_def by simp

lemma detections_raw:
  "subseq (zip (fst (detections e w img)) (snd (detections e w img))) (raw_detections e w img)"
proof (cases "torch_available w")
  case True
  show ?thesis
  proof (cases "detect_faces_torch e img")
    case (Inl err)
    with True show ?thesis by (simp add: detections_def)
  next
    case (Inr d)
    from detect_faces_torch_Inr[OF Inr] obtain p ps where
      "model_call e img = Inr (p # ps)"
      "zip (fst d) (snd d) = filter (\<lambda>(b, s). 7 / 10 < s) (zip (boxes p) (scores p))"
      by blast
    with True Inr show ?thesis
      by (simp add: detections_def raw_detections_def del: split_paired_All)
  qed
next
  case False
  then show ?thesis
    by (cases "detect_faces_opencv e img") (auto simp: detections_def raw_detections_def)
qed

lemma detections_length: "length (fst (detections e w img)) = length (snd (detections e w img))"
  by (auto simp: detections_def split: sum.splits
      dest!: detect_faces_torch_Inr detect_faces_opencv_Inr)

lemma detections_scores:
  "s \<in> set (snd (detections e w img)) \<Longrightarrow>
     (torch_available w \<longrightarrow> 7 / 10 < s) \<and> (\<not> torch_available w \<longrightarrow> s = 1)"
  by (auto simp: detections_def split: sum.splits if_splits
      dest!: detect_faces_torch_Inr detect_faces_opencv_Inr)

lemma slice_len_ge:
  "20 \<le> slice_len n lo hi \<Longrightarrow> lo < 0 \<or> 0 \<le> hi \<Longrightarrow> 20 \<le> hi - lo"
  by (auto simp: slice_len_def slice_index_def split: if_splits)

lemma not_too_small:
  "\<not> too_small im \<longleftrightarrow> 20 \<le> shape0 im \<and> 20 \<le> shape1 im \<and> img_size im \<noteq> 0"
  by (auto simp: too_small_def)

subsection \<open>The examples, evaluated\<close>

lemmas run_defs = detect_faces_def alloc_def buf_def detect_faces_torch_def detect_faces_opencv_def
      mask_index_def analyze_and_draw_def ensure_models_loaded_def analyze_def Let_def
      process_box_def to_box_def crop_def slice_len_def slice_index_def py_slice_def sample_img_def
      too_small_def img_size_def py_index_def analyze_face_def except_Exception_def emotion_step_def
      age_gender_step_def
      annotate_def draw_on_def getTextSize_def make_label_def str_int_def str_nat.simps

lemma ex1: "fst (detect_faces env0 sample_img w0) = Inr (1, [face0])"
  by (simp add: detect_faces_def alloc_def buf_def env0_def w0_def face0_def detect_faces_torch_def
      mask_index_def analyze_and_draw_def ensure_models_loaded_def analyze_def Let_def
      process_box_def to_box_def crop_def slice_len_def slice_index_def py_slice_def sample_img_def
      too_small_def img_size_def py_index_def analyze_face_def emotion_step_def age_gender_step_def
      annotate_def draw_on_def getTextSize_def make_label_def str_int_def str_nat.simps)

lemma ex_cascade: "fst (detect_faces env0 sample_img w_cascade) = Inr (1, [face1])"
  by (simp add: run_defs env0_def w_cascade_def face1_def)

lemma crop80_eq: "crop80 = \<lparr>shape0 = 80, shape1 = 80, pixels = replicate 80 (replicate 80 (0, 0, 0))\<rparr>"
  by (simp add: crop80_def crop_def sample_img_def slice_len_def slice_index_def py_slice_def)

lemma ex_interrupt:
  "detect_faces env_interrupt sample_img w_ready =
     (Inl KeyboardInterrupt, w_ready\<lparr>bufs := [sample_img, sample_img], calls := [Analyze crop80 [Emotion]]\<rparr>)"
  by (simp add: run_defs env0_def env_interrupt_def w_ready_def crop80_def)

subsection \<open>The backend fields an operation reads\<close>

lemmas case_congs = sum.case_cong prod.case_cong option.case_cong list.case_cong if_cong

lemma torch_model_call:
  "detect_faces_torch (e\<lparr>model_call := (\<lambda>i. map_sum id (map (\<lambda>p. p\<lparr>labels := g p\<rparr>)) (model_call e i))\<rparr>) img
     = detect_faces_torch e img"
  by (cases "model_call e img")
    (auto simp: detect_faces_torch_def split: list.splits cong: case_congs)

lemma opencv_model_call: "detect_faces_opencv (e\<lparr>model_call := m\<rparr>) img = detect_faces_opencv e img"
  by (simp add: detect_faces_opencv_def)

lemma ensure_model_call: "ensure_models_loaded (e\<lparr>model_call := m\<rparr>) w = ensure_models_loaded e w"
  by (simp add: ensure_models_loaded_def analyze_def)

lemma emotion_step_model_call: "emotion_step (e\<lparr>model_call := m\<rparr>) fi info w = emotion_step e fi info w"
  by (simp add: emotion_step_def analyze_def)

lemma age_gender_step_model_call:
  "age_gender_step (e\<lparr>model_call := m\<rparr>) fi info w = age_gender_step e fi info w"
  by (simp add: age_gender_step_def analyze_def)

lemma analyze_face_model_call: "analyze_face (e\<lparr>model_call := m\<rparr>) fi info w = analyze_face e fi info w"
  by (simp add: analyze_face_def emotion_step_model_call age_gender_step_model_call cong: case_congs)

lemma getTextSize_model_call: "getTextSize (e\<lparr>model_call := m\<rparr>) s w = getTextSize e s w"
  by (simp add: getTextSize_def)

lemma annotate_model_call: "annotate (e\<lparr>model_call := m\<rparr>) r info w = annotate e r info w"
  by (simp add: annotate_def getTextSize_model_call cong: case_congs)

lemma process_box_model_call:
  "process_box (e\<lparr>model_call := m\<rparr>) a r scs i b faces w = process_box e a r scs i b faces w"
  by (simp add: process_box_def analyze_face_model_call annotate_model_call cong: case_congs)

lemma face_loop_model_call:
  "face_loop (e\<lparr>model_call := m\<rparr>) a r scs i bs faces w = face_loop e a r scs i bs faces w"
  by (induction bs arbitrary: i faces w) (simp_all add: process_box_model_call cong: case_congs)

lemma analyze_and_draw_model_call:
  "analyze_and_draw (e\<lparr>model_call := m\<rparr>) a r d w = analyze_and_draw e a r d w"
  by (simp add: analyze_and_draw_def ensure_model_call face_loop_model_call)

subsection \<open>When the loop raises\<close>

lemma last_call_raised_snoc:
  "calls w' = xs @ [ev] \<Longrightarrow> last_call_raised e w' err = call_raises e w' ev err"
  by (simp add: last_call_raised_def)

lemma draw_on_Inl:
  assumes "draw_on r f ev w = (Inl err, w')"
  shows "calls w' = calls w @ [ev] \<and> f (buf w' r) = Inl err"
  using assms by (auto simp: draw_on_def Let_def buf_def split: sum.splits)

lemma draw_on_Inr_calls: "draw_on r f ev w = (Inr x, w') \<Longrightarrow> calls w' = calls w @ [ev]"
  by (auto simp: draw_on_def Let_def split: sum.splits)

lemma annotate_Inl:
  assumes "annotate e r info w = (Inl err, w')"
  shows "last_call_raised e w' err \<and> length (calls w) < length (calls w')"
proof -
  obtain x1 y1 x2 y2 where b: "box info = (x1, y1, x2, y2)" by (cases "box info")
  let ?l = "make_label info"
  obtain x w1 where d1: "draw_on r (\<lambda>img. cv2_rectangle e img (x1, y1) (x2, y2) (255, 0, 0) 2)
                (Rectangle r (x1, y1) (x2, y2) (255, 0, 0) 2) w = (x, w1)"
    by (metis prod.exhaust)
  show ?thesis
  proof (cases x)
    case (Inl err1)
    with assms d1 have "err1 = err" "w1 = w'" by (simp_all add: annotate_def b)
    with d1 Inl draw_on_Inl[of r _ _ w err w'] show ?thesis
      by (auto simp: last_call_raised_snoc)
  next
    case (Inr u)
    with d1 have c1: "calls w1 = calls w @ [Rectangle r (x1, y1) (x2, y2) (255, 0, 0) 2]"
      by (auto dest: draw_on_Inr_calls)
    from assms d1 Inr have ne: "?l \<noteq> []"
      by (auto simp: annotate_def b Let_def split: if_splits)
    let ?w2 = "w1\<lparr>calls := calls w1 @ [GetTextSize ?l]\<rparr>"
    show ?thesis
    proof (cases "cv2_getTextSize e ?l")
      case gl: (Inl err2)
      with assms d1 Inr ne have "err2 = err" "w' = ?w2"
        by (simp_all add: annotate_def b Let_def getTextSize_def)
      with gl c1 show ?thesis
        by (simp add: last_call_raised_snoc[of _ "calls w1"])
    next
      case gr: (Inr sz)
      obtain tw th bl where sz: "sz = ((tw, th), bl)" by (metis prod.exhaust)
      obtain y w3 where d3: "draw_on r
          (\<lambda>img. cv2_rectangle e img (x1, y1 - 20) (x1 + tw, y1) (255, 0, 0) (- 1))
          (Rectangle r (x1, y1 - 20) (x1 + tw, y1) (255, 0, 0) (- 1)) ?w2 = (y, w3)"
        by (metis prod.exhaust)
      show ?thesis
      proof (cases y)
        case (Inl err3)
        with assms d1 Inr ne gr sz d3 have "err3 = err" "w3 = w'"
          by (simp_all add: annotate_def b Let_def getTextSize_def)
        with d3 Inl draw_on_Inl[of r _ _ ?w2 err w'] c1 show ?thesis
          by (auto simp: last_call_raised_snoc)
      next
        case i3: (Inr u3)
        with d3 have c3: "calls w3 = calls ?w2 @ [Rectangle r (x1, y1 - 20) (x1 + tw, y1) (255, 0, 0) (- 1)]"
          by (auto dest: draw_on_Inr_calls)
        from assms d1 Inr ne gr sz d3 i3 have
          "draw_on r (\<lambda>img. cv2_putText e img ?l (x1, y1 - 5) (255, 255, 255))
             (PutText r ?l (x1, y1 - 5) (255, 255, 255)) w3 = (Inl err, w')"
          by (simp add: annotate_def b Let_def getTextSize_def)
        from draw_on_Inl[OF this] c1 c3 show ?thesis
          by (auto simp: last_call_raised_snoc)
      qed
    qed
  qed
qed

lemma emotion_step_Some:
  assumes "emotion_step e fi info w = (Some err, info1, w1)"
  shows "calls w1 = calls w @ [Analyze fi [Emotion]] \<and>
         (err = KeyError \<or> DeepFace_analyze e (calls w) fi [Emotion] = Inl err)"
  using assms
  by (auto simp: emotion_step_def analyze_def split: if_splits sum.splits list.splits option.splits)

lemma age_gender_step_Some:
  assumes "age_gender_step e fi info w = (Some err, info1, w1)"
  shows "calls w1 = calls w @ [Analyze fi [Age, Gender]] \<and>
         (err = KeyError \<or> DeepFace_analyze e (calls w) fi [Age, Gender] = Inl err)"
  using assms
  by (auto simp: age_gender_step_def analyze_def split: if_splits sum.splits list.splits option.splits)

lemma emotion_step_prefix:
  "emotion_step e fi info w = (x, info1, w1) \<Longrightarrow> length (calls w) \<le> length (calls w1)"
  by (auto simp: emotion_step_def analyze_def split: if_splits sum.splits list.splits option.splits)

lemma except_Exception_Inl:
  "except_Exception err info w = (Inl err', w') \<Longrightarrow> err' = err \<and> w' = w \<and> \<not> is_exception err"
  by (auto simp: except_Exception_def split: if_splits)

lemma analyze_face_Inl:
  assumes "analyze_face e fi info w = (Inl err, w')"
  shows "last_call_raised e w' err \<and> length (calls w) < length (calls w')"
proof -
  from assms have df: "DEEPFACE_AVAILABLE e"
    by (auto simp: analyze_face_def split: if_splits)
  obtain x info1 w1 where es: "emotion_step e fi info w = (x, info1, w1)"
    by (metis prod.exhaust)
  show ?thesis
  proof (cases x)
    case (Some err1)
    with assms df es have "except_Exception err1 info1 w1 = (Inl err, w')"
      by (simp add: analyze_face_def)
    from except_Exception_Inl[OF this] have e1: "err1 = err" "w' = w1" "\<not> is_exception err"
      by simp_all
    from emotion_step_Some[OF es[unfolded Some e1(1)]] e1 show ?thesis
      by (auto simp: last_call_raised_snoc)
  next
    case None
    obtain y info2 w2 where ags: "age_gender_step e fi info1 w1 = (y, info2, w2)"
      by (metis prod.exhaust)
    with assms df es None obtain err2 where y: "y = Some err2"
      and ex: "except_Exception err2 info2 w2 = (Inl err, w')"
      by (cases y) (simp_all add: analyze_face_def)
    from except_Exception_Inl[OF ex] have e2: "err2 = err" "w' = w2" "\<not> is_exception err"
      by simp_all
    from age_gender_step_Some[OF ags[unfolded y e2(1)]] e2 emotion_step_prefix[OF es] show ?thesis
      by (auto simp: last_call_raised_snoc)
  qed
qed

lemma process_box_Inl:
  assumes "process_box e a r scs i b faces w = (Inl err, w')"
  shows "to_box b = Inl err \<or> py_index scs i = Inl err \<or>
         (last_call_raised e w' err \<and> length (calls w) < length (calls w'))"
proof (cases "to_box b")
  case (Inl err1)
  with assms show ?thesis by (simp add: process_box_def)
next
  case (Inr c)
  obtain x1 y1 x2 y2 where c: "c = (x1, y1, x2, y2)" by (cases c)
  let ?fi = "crop (buf w a) y1 y2 x1 x2"
  from assms Inr c have big: "\<not> too_small ?fi"
    by (auto simp: process_box_def Let_def split: if_splits)
  show ?thesis
  proof (cases "py_index scs i")
    case (Inl err2)
    with assms Inr c big show ?thesis by (simp add: process_box_def Let_def)
  next
    case s: (Inr s)
    obtain x w1 where af: "analyze_face e ?fi
        \<lparr>box = (x1, y1, x2, y2), confidence = s, emotion = None, age = None, gender = None\<rparr> w
        = (x, w1)"
      by (metis prod.exhaust)
    show ?thesis
    proof (cases x)
      case (Inl err3)
      with assms Inr c big s af have "err3 = err" "w1 = w'"
        by (simp_all add: process_box_def Let_def)
      with af Inl analyze_face_Inl show ?thesis by blast
    next
      case i: (Inr info)
      with assms Inr c big s af have an: "annotate e r info w1 = (Inl err, w')"
        by (auto simp: process_box_def Let_def split: prod.splits sum.splits)
      from analyze_face_spares[OF af, of 0] have "length (calls w) \<le> length (calls w1)"
        by (auto simp: spares_def)
      with annotate_Inl[OF an] show ?thesis by auto
    qed
  qed
qed

lemma face_loop_Inl:
  assumes "face_loop e a r scs i bs faces w = (Inl err, w')" and "a \<noteq> r"
    and "i + length bs \<le> length scs"
  shows "(\<exists>b. b \<in> set bs \<and> to_box b = Inl err) \<or>
         (last_call_raised e w' err \<and> length (calls w) < length (calls w'))"
  using assms(1,3)
proof (induction bs arbitrary: i faces w)
  case Nil
  then show ?case by simp
next
  case (Cons b bs)
  obtain res w1 where pb: "process_box e a r scs i b faces w = (res, w1)"
    by (metis prod.exhaust)
  show ?case
  proof (cases res)
    case (Inl err1)
    with pb Cons.prems have "process_box e a r scs i b faces w = (Inl err, w')" by simp
    from process_box_Inl[OF this] consider "to_box b = Inl err"
      | "py_index scs i = Inl err"
      | "last_call_raised e w' err \<and> length (calls w) < length (calls w')"
      by blast
    then show ?thesis
    proof cases
      case 1
      then have "b \<in> set (b # bs) \<and> to_box b = Inl err" by simp
      then show ?thesis by blast
    next
      case 2
      with Cons.prems(2) show ?thesis by (simp add: py_index_def)
    next
      case 3
      then show ?thesis by blast
    qed
  next
    case (Inr faces1)
    with pb Cons.prems have loop: "face_loop e a r scs (Suc i) bs faces1 w1 = (Inl err, w')"
      and len: "Suc i + length bs \<le> length scs"
      by simp_all
    from process_box_spares[OF pb assms(2)] have "length (calls w) \<le> length (calls w1)"
      by (auto simp: spares_def)
    with Cons.IH[OF loop len] show ?thesis by auto
  qed
qed

lemma ensure_calls_bufs:
  "calls (ensure_models_loaded e (w\<lparr>bufs := bs\<rparr>)) = calls (ensure_models_loaded e w)"
  by (simp add: ensure_models_loaded_def analyze_def Let_def split: sum.splits)

lemma ensure_unavailable: "\<not> DEEPFACE_AVAILABLE e \<Longrightarrow> ensure_models_loaded e w = w"
  by (simp add: ensure_models_loaded_def)

lemma analyze_and_draw_Inl:
  assumes "analyze_and_draw e a r d (w\<lparr>bufs := bs\<rparr>) = (Inl err, w')" and "a \<noteq> r"
    and "length (fst d) = length (snd d)"
  shows "(\<exists>b. b \<in> set (fst d) \<and> to_box b = Inl err) \<or>
         (last_call_raised e w' err \<and>
          length (calls (ensure_models_loaded e w)) < length (calls w'))"
proof -
  let ?w1 = "if DEEPFACE_AVAILABLE e then ensure_models_loaded e (w\<lparr>bufs := bs\<rparr>) else w\<lparr>bufs := bs\<rparr>"
  from assms(1) have fl: "face_loop e a r (snd d) 0 (fst d) [] ?w1 = (Inl err, w')"
    by (auto simp: analyze_and_draw_def Let_def split: prod.splits sum.splits)
  have c: "calls ?w1 = calls (ensure_models_loaded e w)"
    by (simp add: ensure_calls_bufs ensure_unavailable)
  from face_loop_Inl[OF fl assms(2)] assms(3) c show ?thesis by auto
qed

subsection \<open>The analysis of one face, and the label\<close>

lemma emotion_step_failed:
  assumes "fst (emotion_step e face_img info w) = Some err"
  shows "emotion_step e face_img info w =
           (Some err, info, w\<lparr>calls := calls w @ [Analyze face_img [Emotion]]\<rparr>)"
  using assms
  by (auto simp: emotion_step_def analyze_def split: if_splits sum.splits list.splits option.splits)

lemma emotion_step_flag:
  "emotion_step e face_img info w = (x, info1, w1) \<Longrightarrow>
     age_gender_model_loaded w1 = age_gender_model_loaded w"
  by (auto simp: emotion_step_def analyze_def split: if_splits sum.splits list.splits option.splits)

lemma age_gender_step_calls:
  "age_gender_model_loaded w \<Longrightarrow>
     calls (snd (snd (age_gender_step e face_img info w))) = calls w @ [Analyze face_img [Age, Gender]]"
  by (auto simp: age_gender_step_def analyze_def split: sum.splits list.splits option.splits)

lemma except_Exception_snd: "snd (except_Exception err info w) = w"
  by (simp add: except_Exception_def)

lemma analyze_face_after_emotion:
  assumes "DEEPFACE_AVAILABLE e" and "age_gender_model_loaded w"
    and "fst (emotion_step e fi info w) = None"
  shows "calls (snd (analyze_face e fi info w)) =
           calls (snd (snd (emotion_step e fi info w))) @ [Analyze fi [Age, Gender]]"
proof -
  obtain x info1 w1 where es: "emotion_step e fi info w = (x, info1, w1)"
    by (metis prod.exhaust)
  with assms(3) have x: "x = None" by simp
  from emotion_step_flag[OF es] assms(2) have l: "age_gender_model_loaded w1" by simp
  obtain y info2 w2 where ags: "age_gender_step e fi info1 w1 = (y, info2, w2)"
    by (metis prod.exhaust)
  with age_gender_step_calls[OF l, of e fi info1]
  have c: "calls w2 = calls w1 @ [Analyze fi [Age, Gender]]" by simp
  have "snd (analyze_face e fi info w) = w2"
    using assms(1) es x ags by (cases y) (simp_all add: analyze_face_def except_Exception_snd)
  with c es show ?thesis by simp
qed

lemma process_box_after_analysis:
  assumes "to_box b = Inr (x1, y1, x2, y2)" and "\<not> too_small (crop (buf w a) y1 y2 x1 x2)"
    and "i < length scs"
  shows "\<exists>evs. calls (snd (process_box e a r scs i b faces w)) =
           calls (snd (analyze_face e (crop (buf w a) y1 y2 x1 x2)
                    \<lparr>box = (x1, y1, x2, y2), confidence = scs ! i, emotion = None, age = None,
                     gender = None\<rparr> w)) @ evs"
proof -
  obtain x w1 where af: "analyze_face e (crop (buf w a) y1 y2 x1 x2)
        \<lparr>box = (x1, y1, x2, y2), confidence = scs ! i, emotion = None, age = None, gender = None\<rparr> w
        = (x, w1)"
    by (metis prod.exhaust)
  show ?thesis
  proof (cases x)
    case (Inl err)
    with assms af have "snd (process_box e a r scs i b faces w) = w1"
      by (simp add: process_box_def py_index_def)
    with af show ?thesis by simp
  next
    case (Inr info)
    obtain y w2 where an: "annotate e r info w1 = (y, w2)"
      by (metis prod.exhaust)
    from annotate_spares[OF an, of "Suc r"] obtain evs where "calls w2 = calls w1 @ evs"
      by (auto simp: spares_def)
    moreover from assms af Inr an have "snd (process_box e a r scs i b faces w) = w2"
      by (cases y) (simp_all add: process_box_def py_index_def)
    ultimately show ?thesis using af by simp
  qed
qed

lemma make_label_nonempty:
  "(make_label info \<noteq> []) = (truthy (emotion info) \<or> truthy (age info) \<or> truthy (gender info))"
  by (simp add: make_label_def Let_def)

lemma make_label_spec:
  "make_label info =
     spec_label (truthy_fields info) @
       (if (truthy (emotion info) \<or> truthy (age info)) \<and> \<not> truthy (gender info) then '' '' else [])"
  by (cases "emotion info"; cases "age info"; cases "gender info")
    (auto simp: make_label_def Let_def spec_label_def truthy_fields_def keep_truthy_def)

lemma annotate_calls:
  assumes "fst (annotate e r info w) = Inr ()" and "box info = (x1, y1, x2, y2)"
  shows "(make_label info = [] \<longrightarrow>
            calls (snd (annotate e r info w)) = calls w @ [Rectangle r (x1, y1) (x2, y2) (255, 0, 0) 2]) \<and>
         (make_label info \<noteq> [] \<longrightarrow>
            (\<exists>tw th bl. cv2_getTextSize e (make_label info) = Inr ((tw, th), bl) \<and>
               calls (snd (annotate e r info w)) =
                 calls w @ [Rectangle r (x1, y1) (x2, y2) (255, 0, 0) 2, GetTextSize (make_label info),
                            Rectangle r (x1, y1 - 20) (x1 + tw, y1) (255, 0, 0) (- 1),
                            PutText r (make_label info) (x1, y1 - 5) (255, 255, 255)]))"
  using assms
  by (auto simp: annotate_def draw_on_def getTextSize_def Let_def
      split: sum.splits prod.splits if_splits)

lemma rstrip_space: "rstrip (s @ '' '') = rstrip s"
  by (simp add: rstrip_def)

section \<open>Properties\<close>

subsection \<open>C1: what leaves \<open>detect_faces\<close> as an exception\<close>

text \<open>
  Claim C1 says that \<open>detect_faces\<close> never raises. It does: the call of the detector
  is not guarded, so on a backend whose model raises, the exception leaves
  \<open>detect_faces\<close>.
\<close>

theorem detect_faces_raises_counterexample:
  "fst (detect_faces env_crash sample_img w0) = Inl (BackendError ''inference failed'')"
  by (simp add: detect_faces_def alloc_def buf_def detect_faces_torch_def env_crash_def env0_def w0_def)

text \<open>
  Claim C1, amended: no failure of the warm-up and no failure of the per-face analysis
  that is an \<open>Exception\<close> leaves \<open>detect_faces\<close>. An exception that leaves
  \<open>detect_faces\<close> was raised by the call of the selected detector, or by \<open>int()\<close> on
  a coordinate of one of its boxes, or by the last call made, after the warm-up: a
  drawing primitive, or a per-face \<open>DeepFace.analyze\<close> that raised something that is
  not an \<open>Exception\<close> (\<open>KeyboardInterrupt\<close>, \<open>SystemExit\<close>), which the handler
  of line 153 does not catch.
\<close>

theorem detect_faces_raises_only:
  assumes "fst (detect_faces e img w) = Inl err"
  shows "(torch_available w \<and> detect_faces_torch e img = Inl err) \<or>
         (\<not> torch_available w \<and> face_cascade w \<and> detect_faces_opencv e img = Inl err) \<or>
         (\<exists>b. b \<in> set (fst (detections e w img)) \<and> to_box b = Inl err) \<or>
         (length (calls (ensure_models_loaded e w)) < length (calls (snd (detect_faces e img w))) \<and>
          last_call_raised e (snd (detect_faces e img w)) err)"
proof -
  let ?a = "length (bufs w)"
  let ?bs = "bufs w @ [img, img]"
  let ?w' = "snd (detect_faces e img w)"
  have run: "(\<exists>b. b \<in> set (fst d) \<and> to_box b = Inl err) \<or>
         (last_call_raised e ?w' err \<and>
          length (calls (ensure_models_loaded e w)) < length (calls ?w'))"
    if "detect_faces e img w = analyze_and_draw e ?a (Suc ?a) d (w\<lparr>bufs := ?bs\<rparr>)"
      and "length (fst d) = length (snd d)" for d
  proof -
    from that(1) assms have "analyze_and_draw e ?a (Suc ?a) d (w\<lparr>bufs := ?bs\<rparr>) = (Inl err, ?w')"
      by (metis prod.collapse)
    from analyze_and_draw_Inl[OF this _ that(2)] show ?thesis by simp
  qed
  show ?thesis
  proof (cases "torch_available w")
    case True
    show ?thesis
    proof (cases "detect_faces_torch e img")
      case (Inl err1)
      with True assms show ?thesis by (simp add: detect_faces_unfold Let_def)
    next
      case (Inr d)
      from detect_faces_torch_Inr[OF Inr] have len: "length (fst d) = length (snd d)" by blast
      from True Inr have "detect_faces e img w = analyze_and_draw e ?a (Suc ?a) d (w\<lparr>bufs := ?bs\<rparr>)"
        by (simp add: detect_faces_unfold Let_def)
      from run[OF this len] True Inr show ?thesis
        by (auto simp: detections_def)
    qed
  next
    case False
    show ?thesis
    proof (cases "face_cascade w")
      case c: True
      show ?thesis
      proof (cases "detect_faces_opencv e img")
        case (Inl err1)
        with False c assms show ?thesis by (simp add: detect_faces_unfold Let_def)
      next
        case (Inr d)
        from detect_faces_opencv_Inr[OF Inr] have len: "length (fst d) = length (snd d)" by auto
        from False c Inr have "detect_faces e img w = analyze_and_draw e ?a (Suc ?a) d (w\<lparr>bufs := ?bs\<rparr>)"
          by (simp add: detect_faces_unfold Let_def)
        from run[OF this len] False c Inr show ?thesis
          by (auto simp: detections_def)
      qed
    next
      case c: False
      with False assms show ?thesis by (simp add: detect_faces_unfold Let_def)
    qed
  qed
qed

text \<open>
  An instance: with both models ready and an analysis service that is interrupted,
  the interrupt of the first per-face call leaves \<open>detect_faces\<close>; on a fresh
  pipeline the same interrupts hit the warm-up calls, which swallow them, and
  \<open>detect_faces\<close> returns.
\<close>

theorem detect_faces_raises_only_witness:
  "fst (detect_faces env_interrupt sample_img w_ready) = Inl KeyboardInterrupt \<and>
   last_call_raised env_interrupt (snd (detect_faces env_interrupt sample_img w_ready)) KeyboardInterrupt \<and>
   calls (snd (detect_faces env_interrupt sample_img w_ready)) = [Analyze crop80 [Emotion]] \<and>
   fst (detect_faces env_interrupt sample_img w0) = Inr (1, [face_bare])"
proof -
  have h: "fst (detect_faces env_interrupt sample_img w_ready) = Inl KeyboardInterrupt"
    by (simp add: ex_interrupt)
  have t: "detect_faces_torch env_interrupt sample_img \<noteq> Inl KeyboardInterrupt"
    by (simp add: detect_faces_torch_def mask_index_def env_interrupt_def env0_def)
  have tw: "torch_available w_ready" by (simp add: w_ready_def)
  have d: "fst (detections env_interrupt w_ready sample_img) =
      [(FloatNum (21 / 2), FloatNum 10, FloatNum 90, FloatNum (181 / 2)),
       (FloatNum 0, FloatNum 0, FloatNum 15, FloatNum 15)]"
    by (simp add: detections_def detect_faces_torch_def mask_index_def env_interrupt_def env0_def
        w_ready_def)
  have b: "\<not> (\<exists>b. b \<in> set (fst (detections env_interrupt w_ready sample_img)) \<and> to_box b = Inl KeyboardInterrupt)"
    unfolding d by (auto simp: to_box_def)
  from detect_faces_raises_only[OF h] t tw b
  have "last_call_raised env_interrupt (snd (detect_faces env_interrupt sample_img w_ready)) KeyboardInterrupt"
    by blast
  moreover have "fst (detect_faces env_interrupt sample_img w0) = Inr (1, [face_bare])"
    by (simp add: run_defs env0_def env_interrupt_def w0_def face_bare_def)
  ultimately show ?thesis by (simp add: ex_interrupt)
qed

subsection \<open>C2: confidence of the returned faces\<close>

text \<open>
  Claim C2: when the learned detector is available, every returned face record has a
  confidence above 0.7; when only the cascade detector is available, every returned
  face record has confidence 1.
\<close>

theorem faces_confidence:
  assumes "fst (detect_faces e img w) = Inr (r, faces)"
  shows "(torch_available w \<longrightarrow> (\<forall>f \<in> set faces. 7 / 10 < confidence f)) \<and>
         (\<not> torch_available w \<and> face_cascade w \<longrightarrow> (\<forall>f \<in> set faces. confidence f = 1))"
proof -
  from detect_faces_summary'[OF assms] obtain cs where
    cs: "map summary faces = filter (survives img) (zip cs (snd (detections e w img)))"
    by blast
  have "confidence f \<in> set (snd (detections e w img))" if "f \<in> set faces" for f
  proof -
    from that have "summary f \<in> set (map summary faces)" by simp
    then have "(box f, confidence f) \<in> set (zip cs (snd (detections e w img)))"
      unfolding cs by (simp add: summary_def)
    then show ?thesis by (rule set_zip_rightD)
  qed
  then show ?thesis
    by (blast dest: detections_scores)
qed

text \<open>An instance on each detector path.\<close>

theorem faces_confidence_witness:
  "7 / 10 < confidence face0 \<and> confidence face1 = 1"
  using faces_confidence[OF ex1] faces_confidence[OF ex_cascade]
  by (simp add: w0_def w_cascade_def)

subsection \<open>C3: the age and gender analysis of a face\<close>

text \<open>
  Claim C3 says that a failure of the emotion analysis does not prevent the age and
  gender analysis of the same face. Both analyses stand in one \<open>try\<close>: when the
  emotion analysis raises, the handler is entered and the age and gender analysis of
  that face is never called, although its model is ready.
\<close>

theorem emotion_failure_counterexample:
  "age_gender_model_loaded w_ready \<and>
   fst (detect_faces env_sad sample_img w_ready) = Inr (1, [face_bare]) \<and>
   calls (snd (detect_faces env_sad sample_img w_ready)) =
     [Analyze crop80 [Emotion], Rectangle 1 (10, 10) (90, 90) (255, 0, 0) 2]"
  by (simp add: run_defs env0_def env_sad_def w_ready_def face_bare_def crop80_def)

text \<open>
  Claim C3, amended: with the analysis service available and the age and gender model
  ready, the age and gender analysis is called on the crop of a face right after the
  emotion step, when that step did not raise (the emotion model is not ready, or its
  analysis succeeded); so it is in the round of the loop for a surviving detection.
  When the emotion step raises an \<open>Exception\<close>, the one handler is entered: the
  record keeps its fields as they were (emotion, age and gender null), the only call
  made is the emotion analysis, and the loop goes on. When it raises something that is
  not an \<open>Exception\<close>, that leaves the function. A round of the loop raises only what
  the conversion of the box or the indexing of the scores raised, or what its last
  call raised: a drawing primitive, or an analysis that raised something that is not
  an \<open>Exception\<close>.
\<close>

theorem age_gender_after_emotion:
  assumes "DEEPFACE_AVAILABLE e" and "age_gender_model_loaded w"
  shows "(fst (emotion_step e face_img info w) = None \<longrightarrow>
            calls (snd (analyze_face e face_img info w)) =
              calls (snd (snd (emotion_step e face_img info w))) @ [Analyze face_img [Age, Gender]]) \<and>
         (\<forall>err. fst (emotion_step e face_img info w) = Some err \<and> is_exception err \<longrightarrow>
            analyze_face e face_img info w =
              (Inr info, w\<lparr>calls := calls w @ [Analyze face_img [Emotion]]\<rparr>)) \<and>
         (\<forall>err. fst (emotion_step e face_img info w) = Some err \<and> \<not> is_exception err \<longrightarrow>
            analyze_face e face_img info w =
              (Inl err, w\<lparr>calls := calls w @ [Analyze face_img [Emotion]]\<rparr>)) \<and>
         (to_box b = Inr (x1, y1, x2, y2) \<and> \<not> too_small (crop (buf w a) y1 y2 x1 x2) \<and>
          i < length scs \<and>
          fst (emotion_step e (crop (buf w a) y1 y2 x1 x2)
                 \<lparr>box = (x1, y1, x2, y2), confidence = scs ! i, emotion = None, age = None,
                  gender = None\<rparr> w) = None \<longrightarrow>
            (\<exists>evs. calls (snd (process_box e a r scs i b faces w)) =
               calls (snd (snd (emotion_step e (crop (buf w a) y1 y2 x1 x2)
                 \<lparr>box = (x1, y1, x2, y2), confidence = scs ! i, emotion = None, age = None,
                  gender = None\<rparr> w))) @
               Analyze (crop (buf w a) y1 y2 x1 x2) [Age, Gender] # evs)) \<and>
         (\<forall>err. fst (process_box e a r scs i b faces w) = Inl err \<longrightarrow>
            to_box b = Inl err \<or> py_index scs i = Inl err \<or>
            last_call_raised e (snd (process_box e a r scs i b faces w)) err)"
proof -
  have 2: "analyze_face e face_img info w =
              (Inr info, w\<lparr>calls := calls w @ [Analyze face_img [Emotion]]\<rparr>)"
    if "fst (emotion_step e face_img info w) = Some err" "is_exception err" for err
    using emotion_step_failed[OF that(1)] that(2) assms(1)
    by (simp add: analyze_face_def except_Exception_def)
  have 3: "analyze_face e face_img info w =
              (Inl err, w\<lparr>calls := calls w @ [Analyze face_img [Emotion]]\<rparr>)"
    if "fst (emotion_step e face_img info w) = Some err" "\<not> is_exception err" for err
    using emotion_step_failed[OF that(1)] that(2) assms(1)
    by (simp add: analyze_face_def except_Exception_def)
  have 4: "\<exists>evs. calls (snd (process_box e a r scs i b faces w)) =
               calls (snd (snd (emotion_step e (crop (buf w a) y1 y2 x1 x2)
                 \<lparr>box = (x1, y1, x2, y2), confidence = scs ! i, emotion = None, age = None,
                  gender = None\<rparr> w))) @
               Analyze (crop (buf w a) y1 y2 x1 x2) [Age, Gender] # evs"
    if t: "to_box b = Inr (x1, y1, x2, y2)" "\<not> too_small (crop (buf w a) y1 y2 x1 x2)" "i < length scs"
      and n: "fst (emotion_step e (crop (buf w a) y1 y2 x1 x2)
                 \<lparr>box = (x1, y1, x2, y2), confidence = scs ! i, emotion = None, age = None,
                  gender = None\<rparr> w) = None"
  proof -
    from process_box_after_analysis[OF t, of e r faces] obtain evs where
      "calls (snd (process_box e a r scs i b faces w)) =
         calls (snd (analyze_face e (crop (buf w a) y1 y2 x1 x2)
                    \<lparr>box = (x1, y1, x2, y2), confidence = scs ! i, emotion = None, age = None,
                     gender = None\<rparr> w)) @ evs"
      by blast
    with analyze_face_after_emotion[OF assms n] show ?thesis by simp
  qed
  have 5: "to_box b = Inl err \<or> py_index scs i = Inl err \<or>
            last_call_raised e (snd (process_box e a r scs i b faces w)) err"
    if "fst (process_box e a r scs i b faces w) = Inl err" for err
  proof -
    from that have "process_box e a r scs i b faces w = (Inl err, snd (process_box e a r scs i b faces w))"
      by (metis prod.collapse)
    from process_box_Inl[OF this] show ?thesis by blast
  qed
  from analyze_face_after_emotion[OF assms, of face_img info] 2 3 4 5 show ?thesis
    by blast
qed

text \<open>
  An instance of each of the three cases, on the crop of the example image, and the
  round of the loop for the first box of the example prediction.
\<close>

theorem age_gender_after_emotion_witness:
  "calls (snd (analyze_face env0 crop80 face_bare w_ready)) =
     [Analyze crop80 [Emotion], Analyze crop80 [Age, Gender]] \<and>
   analyze_face env_sad crop80 face_bare w_ready =
     (Inr face_bare, w_ready\<lparr>calls := [Analyze crop80 [Emotion]]\<rparr>) \<and>
   analyze_face env_interrupt crop80 face_bare w_ready =
     (Inl KeyboardInterrupt, w_ready\<lparr>calls := [Analyze crop80 [Emotion]]\<rparr>) \<and>
   (\<exists>evs. calls (snd (process_box env0 0 1 [19 / 20, 9 / 10] 0 box0 [] w_ready2)) =
      [Analyze crop80 [Emotion], Analyze crop80 [Age, Gender]] @ evs)"
proof -
  have a: "DEEPFACE_AVAILABLE env0" "DEEPFACE_AVAILABLE env_sad" "DEEPFACE_AVAILABLE env_interrupt"
    "age_gender_model_loaded w_ready" "age_gender_model_loaded w_ready2"
    by (simp_all add: env0_def env_sad_def env_interrupt_def w_ready_def w_ready2_def)
  have b: "emotion_step env0 crop80 face_bare w_ready =
      (None, face_bare\<lparr>emotion := Some (PyStr ''happy'')\<rparr>, w_ready\<lparr>calls := [Analyze crop80 [Emotion]]\<rparr>)"
    by (simp add: emotion_step_def analyze_def env0_def w_ready_def)
  have c: "fst (emotion_step env_sad crop80 face_bare w_ready) = Some (BackendError ''emotion failed'')"
    by (simp add: emotion_step_def analyze_def env0_def env_sad_def w_ready_def)
  have c': "fst (emotion_step env_interrupt crop80 face_bare w_ready) = Some KeyboardInterrupt"
    by (simp add: emotion_step_def analyze_def env0_def env_interrupt_def w_ready_def)
  have d: "calls w_ready = []" by (simp add: w_ready_def)
  have t: "to_box box0 = Inr (10, 10, 90, 90)"
    by (simp add: to_box_def box0_def)
  have cr: "crop (buf w_ready2 0) 10 90 10 90 = crop80"
    by (simp add: buf_def w_ready2_def crop80_def)
  have big: "\<not> too_small crop80"
    by (simp add: crop80_eq too_small_def img_size_def)
  have i: "(0::nat) < length [19 / 20, 9 / 10 :: real]" by simp
  have n: "emotion_step env0 crop80
                 \<lparr>box = (10, 10, 90, 90), confidence = [19 / 20, 9 / 10] ! 0, emotion = None,
                  age = None, gender = None\<rparr> w_ready2 =
      (None, \<lparr>box = (10, 10, 90, 90), confidence = 19 / 20, emotion = Some (PyStr ''happy''),
                  age = None, gender = None\<rparr>,
       w_ready2\<lparr>calls := [Analyze crop80 [Emotion]]\<rparr>)"
    by (simp add: emotion_step_def analyze_def env0_def w_ready_def w_ready2_def)
  from age_gender_after_emotion[OF a(1,4), where face_img=crop80 and info=face_bare] b
  have 1: "calls (snd (analyze_face env0 crop80 face_bare w_ready)) =
     [Analyze crop80 [Emotion], Analyze crop80 [Age, Gender]]"
    by simp
  from age_gender_after_emotion[OF a(2,4), where face_img=crop80 and info=face_bare] c d
  have 2: "analyze_face env_sad crop80 face_bare w_ready =
     (Inr face_bare, w_ready\<lparr>calls := [Analyze crop80 [Emotion]]\<rparr>)"
    by simp
  from age_gender_after_emotion[OF a(3,4), where face_img=crop80 and info=face_bare] c' d
  have 3: "analyze_face env_interrupt crop80 face_bare w_ready =
     (Inl KeyboardInterrupt, w_ready\<lparr>calls := [Analyze crop80 [Emotion]]\<rparr>)"
    by simp
  from age_gender_after_emotion[OF a(1,5), where b=box0 and ?x1.0=10 and ?y1.0=10 and ?x2.0=90 and ?y2.0=90 and a=0
      and i=0 and scs="[19 / 20, 9 / 10]" and r=1 and faces="[]"] t cr big i n
  have 4: "\<exists>evs. calls (snd (process_box env0 0 1 [19 / 20, 9 / 10] 0 box0 [] w_ready2)) =
      [Analyze crop80 [Emotion], Analyze crop80 [Age, Gender]] @ evs"
    by simp
  from 1 2 3 4 show ?thesis by blast
qed

subsection \<open>C4: warm-up\<close>

text \<open>
  Claim C4 says that a group already marked ready is not warmed up again. The guard of
  line 47 asks whether either flag is false, and then both warm-up calls are made:
  with the emotion model ready and the age and gender model pending, the emotion
  warm-up is called again.
\<close>

theorem warm_up_ready_group_counterexample:
  "emotion_model_loaded w_half \<and>
   calls (ensure_models_loaded env0 w_half) =
     [Analyze sample_img [Emotion], Analyze sample_img [Age, Gender]]"
  by (simp add: ensure_models_loaded_def analyze_def Let_def env0_def w_half_def)

text \<open>
  Claim C4, amended: when the analysis service is available and at least one of the
  two flags is false, a call makes both warm-up inferences on the blank probe image,
  emotion first and then age and gender, also for a group that is already ready; when
  both flags are true, or the service is unavailable, it makes none. A flag that is
  true stays true, and a flag that is false becomes true exactly when its warm-up
  call succeeds; so the warm-up of a pending group is made again on every call while
  its flag is false.
\<close>

theorem warm_up_calls:
  "calls (ensure_models_loaded e w) =
     calls w @
       (if DEEPFACE_AVAILABLE e \<and> \<not> (emotion_model_loaded w \<and> age_gender_model_loaded w)
        then [Analyze sample_img [Emotion], Analyze sample_img [Age, Gender]] else []) \<and>
   emotion_model_loaded (ensure_models_loaded e w) =
     (emotion_model_loaded w \<or>
      DEEPFACE_AVAILABLE e \<and> \<not> isl (DeepFace_analyze e (calls w) sample_img [Emotion])) \<and>
   age_gender_model_loaded (ensure_models_loaded e w) =
     (age_gender_model_loaded w \<or>
      DEEPFACE_AVAILABLE e \<and>
      \<not> isl (DeepFace_analyze e (calls w @ [Analyze sample_img [Emotion]]) sample_img [Age, Gender]))"
  by (cases "DeepFace_analyze e (calls w) sample_img [Emotion]";
      cases "DeepFace_analyze e (calls w @ [Analyze sample_img [Emotion]]) sample_img [Age, Gender]")
    (auto simp: ensure_models_loaded_def analyze_def Let_def)

text \<open>
  Instances: no call when both models are ready; two calls, and two more on the next
  call, while the service keeps failing; the pending model becomes ready when its call
  succeeds.
\<close>

theorem warm_up_calls_witness:
  "calls (ensure_models_loaded env0 w_ready) = [] \<and>
   calls (ensure_models_loaded env_down w0) =
     [Analyze sample_img [Emotion], Analyze sample_img [Age, Gender]] \<and>
   emotion_model_loaded (ensure_models_loaded env_down w0) = False \<and>
   calls (ensure_models_loaded env_down (ensure_models_loaded env_down w0)) =
     [Analyze sample_img [Emotion], Analyze sample_img [Age, Gender],
      Analyze sample_img [Emotion], Analyze sample_img [Age, Gender]] \<and>
   age_gender_model_loaded (ensure_models_loaded env0 w_half) = True"
  using warm_up_calls[of env0 w_ready] warm_up_calls[of env_down w0] warm_up_calls[of env_down "ensure_models_loaded env_down w0"]
    warm_up_calls[of env0 w_half]
  by (simp add: env0_def env_down_def w0_def w_ready_def w_half_def analysis_down_def)

subsection \<open>C5: size of the crops\<close>

text \<open>
  Claim C5: for every returned face record, the crop \<open>image[y1:y2, x1:x2]\<close> of its box
  is at least 20 pixels high and 20 pixels wide (and not empty); the returned boxes are
  exactly the candidate boxes whose crop passes that test, so a candidate with an empty
  or smaller crop produces no record. Where the box does not run from a non-negative
  start to a negative end, the differences \<open>x2 - x1\<close> and \<open>y2 - y1\<close> are at least 20
  as well.
\<close>

theorem faces_crop_size:
  assumes "fst (detect_faces e img w) = Inr (r, faces)"
  shows "(\<forall>f \<in> set faces. 20 \<le> shape0 (crop_box img (box f)) \<and> 20 \<le> shape1 (crop_box img (box f)) \<and>
            img_size (crop_box img (box f)) \<noteq> 0) \<and>
         (\<exists>cs. map to_box (fst (detections e w img)) = map Inr cs \<and>
            map box faces = filter (\<lambda>b. \<not> too_small (crop_box img b)) cs) \<and>
         (\<forall>f \<in> set faces. case box f of (x1, y1, x2, y2) \<Rightarrow>
            (x1 < 0 \<or> 0 \<le> x2 \<longrightarrow> 20 \<le> x2 - x1) \<and> (y1 < 0 \<or> 0 \<le> y2 \<longrightarrow> 20 \<le> y2 - y1))"
proof -
  from detect_faces_summary'[OF assms] obtain cs where
    cs: "map to_box (fst (detections e w img)) = map Inr cs"
    "map summary faces = filter (survives img) (zip cs (snd (detections e w img)))"
    by blast
  let ?ss = "snd (detections e w img)"
  from cs(1) have "length cs = length (fst (detections e w img))"
    by (metis length_map)
  then have len: "length cs = length ?ss" by (simp add: detections_length)
  have "map box faces = map fst (map summary faces)"
    by (simp add: summary_def comp_def)
  also have "\<dots> = map fst (filter (survives img) (zip cs ?ss))" by (simp only: cs(2))
  also have "\<dots> = filter (\<lambda>b. \<not> too_small (crop_box img b)) (map fst (zip cs ?ss))"
    by (simp add: filter_map comp_def survives_def[abs_def])
  also have "map fst (zip cs ?ss) = cs" using len by simp
  finally have boxes: "map box faces = filter (\<lambda>b. \<not> too_small (crop_box img b)) cs" .
  have ok: "\<not> too_small (crop_box img (box f))" if "f \<in> set faces" for f
  proof -
    from that have "box f \<in> set (map box faces)" by simp
    then show ?thesis unfolding boxes by simp
  qed
  have dims: "case box f of (x1, y1, x2, y2) \<Rightarrow>
            (x1 < 0 \<or> 0 \<le> x2 \<longrightarrow> 20 \<le> x2 - x1) \<and> (y1 < 0 \<or> 0 \<le> y2 \<longrightarrow> 20 \<le> y2 - y1)"
    if "f \<in> set faces" for f
  proof -
    obtain x1 y1 x2 y2 where b: "box f = (x1, y1, x2, y2)" by (cases "box f")
    from ok[OF that] have "20 \<le> slice_len (shape0 img) y1 y2" "20 \<le> slice_len (shape1 img) x1 x2"
      by (simp_all add: not_too_small b crop_box_def crop_def)
    then show ?thesis unfolding b by (auto dest: slice_len_ge)
  qed
  from ok dims boxes cs(1) show ?thesis
    by (auto simp: not_too_small)
qed

text \<open>An instance: the face returned for the example image.\<close>

theorem faces_crop_size_witness:
  "20 \<le> shape0 (crop_box sample_img (box face0)) \<and> 20 \<le> shape1 (crop_box sample_img (box face0)) \<and>
   img_size (crop_box sample_img (box face0)) \<noteq> 0 \<and> (20::int) \<le> 90 - 10"
  using faces_crop_size[OF ex1]
  by (simp add: face0_def)

subsection \<open>C6: number and order of the records\<close>

text \<open>
  Claim C6: the returned records are no more than the raw detections of the selected
  detector, and they appear in the detector's order: their boxes and confidences are
  a subsequence of the (converted) raw detections.
\<close>

theorem faces_in_detection_order:
  assumes "fst (detect_faces e img w) = Inr (r, faces)"
  shows "length faces \<le> length (raw_detections e w img) \<and>
         subseq (map summary faces) (converted (raw_detections e w img))"
proof -
  from detect_faces_summary'[OF assms] obtain cs where
    cs: "map to_box (fst (detections e w img)) = map Inr cs"
    "map summary faces = filter (survives img) (zip cs (snd (detections e w img)))"
    by blast
  let ?d = "detections e w img"
  have 1: "subseq (map summary faces) (zip cs (snd ?d))"
    unfolding cs(2) by (rule subseq_filter_left)
  have 2: "zip cs (snd ?d) = converted (zip (fst ?d) (snd ?d))"
    using converted_zip[OF cs(1)] by simp
  have 3: "subseq (converted (zip (fst ?d) (snd ?d))) (converted (raw_detections e w img))"
    by (rule subseq_converted[OF detections_raw])
  from 1 2 3 have s: "subseq (map summary faces) (converted (raw_detections e w img))"
    by (metis subseq_order.order_trans)
  then have "length (map summary faces) \<le> length (converted (raw_detections e w img))"
    by (rule list_emb_length)
  also have "\<dots> \<le> length (raw_detections e w img)" by (rule length_converted)
  finally show ?thesis using s by simp
qed

text \<open>An instance: one record out of three raw detections.\<close>

theorem faces_in_detection_order_witness:
  "length [face0] \<le> length (raw_detections env0 w0 sample_img) \<and>
   length (raw_detections env0 w0 sample_img) = 3 \<and>
   subseq [((10, 10, 90, 90), 19 / 20)]
     [((10, 10, 90, 90), 19 / 20), ((0, 0, 15, 15), 9 / 10), ((20, 20, 60, 60), 1 / 2)]"
  using faces_in_detection_order[OF ex1]
  by (simp add: raw_detections_def converted_def map_filter_simps to_box_def summary_def
      env0_def w0_def face0_def)

subsection \<open>C7: the input buffer\<close>

text \<open>
  Claim C7: \<open>detect_faces\<close> does not change the input buffer. After any call, also one
  that raises, the buffers that existed before and the input buffer hold what they held,
  and no drawing call of this call names the input buffer: all of them draw on the copy.
  (The detectors and \<open>DeepFace.analyze\<close> are taken to read the pixels they are given
  without writing to them.)
\<close>

theorem input_buffer_unchanged:
  "take (Suc (length (bufs w))) (bufs (snd (detect_faces e img w))) = bufs w @ [img] \<and>
   \<not> list_ex (draws_on (length (bufs w))) (drop (length (calls w)) (calls (snd (detect_faces e img w))))"
proof -
  let ?a = "length (bufs w)"
  let ?w1 = "w\<lparr>bufs := bufs w @ [img, img]\<rparr>"
  let ?w' = "snd (detect_faces e img w)"
  have "same_but (Suc ?a) (bufs ?w1) (bufs ?w') \<and> spares ?a (calls ?w1) (calls ?w')"
  proof (cases "torch_available w")
    case True
    show ?thesis
    proof (cases "detect_faces_torch e img")
      case (Inl err)
      with True show ?thesis by (simp add: detect_faces_unfold Let_def)
    next
      case (Inr d)
      with True have "detect_faces e img w = analyze_and_draw e ?a (Suc ?a) d ?w1"
        by (simp add: detect_faces_unfold Let_def)
      then show ?thesis
        using analyze_and_draw_frame[of e ?a "Suc ?a" d ?w1 "fst (detect_faces e img w)" ?w'] by simp
    qed
  next
    case False
    show ?thesis
    proof (cases "face_cascade w")
      case c: True
      show ?thesis
      proof (cases "detect_faces_opencv e img")
        case (Inl err)
        with False c show ?thesis by (simp add: detect_faces_unfold Let_def)
      next
        case (Inr d)
        with False c have "detect_faces e img w = analyze_and_draw e ?a (Suc ?a) d ?w1"
          by (simp add: detect_faces_unfold Let_def)
        then show ?thesis
          using analyze_and_draw_frame[of e ?a "Suc ?a" d ?w1 "fst (detect_faces e img w)" ?w'] by simp
      qed
    next
      case c: False
      with False show ?thesis by (simp add: detect_faces_unfold Let_def)
    qed
  qed
  then obtain im where "bufs ?w' = (bufs ?w1)[Suc ?a := im]" and s: "spares ?a (calls w) (calls ?w')"
    by (auto simp: same_but_def)
  then have "take (Suc ?a) (bufs ?w') = bufs w @ [img]" by simp
  with spares_drop[OF s] show ?thesis by simp
qed

text \<open>An instance: the example image.\<close>

theorem input_buffer_unchanged_witness:
  "take 1 (bufs (snd (detect_faces env0 sample_img w0))) = [sample_img] \<and>
   \<not> list_ex (draws_on 0) (calls (snd (detect_faces env0 sample_img w0)))"
  using input_buffer_unchanged[of w0 env0 sample_img]
  by (simp add: w0_def)

subsection \<open>C8: no detector\<close>

text \<open>
  Claim C8: when neither the learned detector nor the cascade detector is available,
  \<open>detect_faces\<close> returns a copy of the input image and an empty list of faces, and
  raises nothing; it makes no call and leaves the flags alone.
\<close>

theorem no_detector_returns_copy:
  assumes "\<not> torch_available w" and "\<not> face_cascade w"
  shows "detect_faces e img w = (Inr (Suc (length (bufs w)), []), w\<lparr>bufs := bufs w @ [img, img]\<rparr>)"
  using assms by (simp add: detect_faces_unfold Let_def)

text \<open>An instance: the example image on a pipeline without detectors.\<close>

theorem no_detector_returns_copy_witness:
  "detect_faces env0 sample_img w_none = (Inr (1, []), w_none\<lparr>bufs := [sample_img, sample_img]\<rparr>)"
  using no_detector_returns_copy[of w_none env0 sample_img]
  by (simp add: w_none_def)

subsection \<open>C9: the label\<close>

text \<open>
  Claim C9 says that a label is drawn exactly when one of emotion, age and gender is
  not null, and that it is made of the fields that are not null. The fields are
  tested for truth, not for null: with an age of 0 and the gender \<open>Man\<close>, the label
  drawn is \<open>Gender: Man\<close>, without the age; with an age of 0 alone, the record has an
  age and no label is drawn.
\<close>

theorem label_format_counterexample:
  "fst (detect_faces env_age0 sample_img w0) = Inr (1, [face_age0]) \<and>
   last (calls (snd (detect_faces env_age0 sample_img w0))) =
     PutText 1 ''Gender: Man'' (10, 5) (255, 255, 255) \<and>
   spec_label face_age0 = ''Age: 0 Gender: Man'' \<and>
   fst (detect_faces env_age0_only sample_img w0) = Inr (1, [face_age0_only]) \<and>
   last (calls (snd (detect_faces env_age0_only sample_img w0))) =
     Rectangle 1 (10, 10) (90, 90) (255, 0, 0) 2"
  by (simp add: run_defs env0_def env_age0_def env_age0_only_def w0_def face_age0_def
      face_age0_only_def spec_label_def)

text \<open>
  Claim C9, amended: a label is composed and drawn exactly when one of emotion, age and
  gender is true in Python's sense (not null, not the empty string, not 0). Up to
  spaces at its end, the label is the fields that are true, in the order emotion,
  age, gender, each as \<open>Name: value\<close> and separated by single spaces; it is exactly
  that when the gender is among them. When the drawing succeeds, the calls are: the
  box; and, if there is a label, the measuring of the label, a filled rectangle from
  \<open>(x1, y1 - 20)\<close> to \<open>(x1 + width of the label, y1)\<close>, that is directly above the top
  edge of the box, and the text at \<open>(x1, y1 - 5)\<close>.
\<close>

theorem label_format:
  "rstrip (make_label info) = rstrip (spec_label (truthy_fields info)) \<and>
   (truthy (gender info) \<longrightarrow> make_label info = spec_label (truthy_fields info)) \<and>
   (make_label info \<noteq> []) = (truthy (emotion info) \<or> truthy (age info) \<or> truthy (gender info)) \<and>
   (fst (annotate e r info w) = Inr () \<and> box info = (x1, y1, x2, y2) \<longrightarrow>
      (make_label info = [] \<longrightarrow>
         calls (snd (annotate e r info w)) = calls w @ [Rectangle r (x1, y1) (x2, y2) (255, 0, 0) 2]) \<and>
      (make_label info \<noteq> [] \<longrightarrow>
         (\<exists>tw th bl. cv2_getTextSize e (make_label info) = Inr ((tw, th), bl) \<and>
            calls (snd (annotate e r info w)) =
              calls w @ [Rectangle r (x1, y1) (x2, y2) (255, 0, 0) 2, GetTextSize (make_label info),
                         Rectangle r (x1, y1 - 20) (x1 + tw, y1) (255, 0, 0) (- 1),
                         PutText r (make_label info) (x1, y1 - 5) (255, 255, 255)])))"
proof -
  have 1: "rstrip (make_label info) = rstrip (spec_label (truthy_fields info))"
    by (simp add: make_label_spec[of info] rstrip_space)
  have 2: "make_label info = spec_label (truthy_fields info)" if "truthy (gender info)"
    using that by (simp add: make_label_spec[of info])
  from 1 2 make_label_nonempty[of info] annotate_calls[of e r info w x1 y1 x2 y2]
  show ?thesis by blast
qed

text \<open>An instance: the record of the example image with all three fields.\<close>

theorem label_format_witness:
  "make_label face0 = ''Emotion: happy Age: 30 Gender: Man'' \<and>
   spec_label (truthy_fields face0) = ''Emotion: happy Age: 30 Gender: Man'' \<and>
   calls (snd (annotate env0 1 face0 (w0\<lparr>bufs := [sample_img, sample_img]\<rparr>))) =
     [Rectangle 1 (10, 10) (90, 90) (255, 0, 0) 2, GetTextSize ''Emotion: happy Age: 30 Gender: Man'',
      Rectangle 1 (10, - 10) (316, 10) (255, 0, 0) (- 1),
      PutText 1 ''Emotion: happy Age: 30 Gender: Man'' (10, 5) (255, 255, 255)]"
proof -
  have l: "make_label face0 = ''Emotion: happy Age: 30 Gender: Man''"
    by (simp add: make_label_def face0_def str_int_def str_nat.simps)
  have a: "fst (annotate env0 1 face0 (w0\<lparr>bufs := [sample_img, sample_img]\<rparr>)) = Inr ()"
    by (simp add: annotate_def draw_on_def getTextSize_def Let_def l env0_def face0_def)
  have b: "box face0 = (10, 10, 90, 90)" by (simp add: face0_def)
  have t: "truthy (gender face0)" by (simp add: face0_def)
  have g: "cv2_getTextSize env0 ''Emotion: happy Age: 30 Gender: Man'' = Inr ((306, 11), 4)"
    by (simp add: env0_def)
  have c: "calls (w0\<lparr>bufs := [sample_img, sample_img]\<rparr>) = []" by (simp add: w0_def)
  from label_format[of face0 env0 1 "w0\<lparr>bufs := [sample_img, sample_img]\<rparr>" 10 10 90 90] a b l t g c
  show ?thesis
    by simp
qed

subsection \<open>C10: class labels\<close>

text \<open>
  Claim C10: on the learned-detector path, the candidates are exactly the predictions
  whose score exceeds 0.7, whatever their class label: replacing the labels of the
  prediction by any others changes nothing in what \<open>detect_faces\<close> returns or does.
\<close>

theorem labels_ignored:
  "detect_faces (e\<lparr>model_call := (\<lambda>i. map_sum id (map (\<lambda>p. p\<lparr>labels := g p\<rparr>)) (model_call e i))\<rparr>) img w
     = detect_faces e img w \<and>
   (\<forall>p ps. model_call e img = Inr (p # ps) \<and> length (boxes p) = length (scores p) \<longrightarrow>
      detect_faces_torch e img =
        Inr (map fst (filter (\<lambda>(b, s). 7 / 10 < s) (zip (boxes p) (scores p))),
             filter (\<lambda>s. 7 / 10 < s) (scores p)))"
proof -
  have 1: "detect_faces_torch e img =
        Inr (map fst (filter (\<lambda>(b, s). 7 / 10 < s) (zip (boxes p) (scores p))),
             filter (\<lambda>s. 7 / 10 < s) (scores p))"
    if "model_call e img = Inr (p # ps)" "length (boxes p) = length (scores p)" for p ps
  proof -
    define P where "P = (\<lambda>s::real. 7 / 10 < s)"
    have "detect_faces_torch e img =
       (case mask_index (boxes p) (map P (scores p)) of
             Inl err \<Rightarrow> Inl err
           | Inr bs \<Rightarrow>
               (case mask_index (scores p) (map P (scores p)) of
                  Inl err \<Rightarrow> Inl err
                | Inr ss \<Rightarrow> Inr (bs, ss)))"
      unfolding detect_faces_torch_def P_def that(1) by simp
    also have "\<dots> = Inr (map fst (filter (\<lambda>(b, s). P s) (zip (boxes p) (scores p))), filter P (scores p))"
      by (simp add: mask_index_zip[OF that(2)] mask_index_self)
    finally show ?thesis unfolding P_def .
  qed
  have 2: "detect_faces (e\<lparr>model_call := (\<lambda>i. map_sum id (map (\<lambda>p. p\<lparr>labels := g p\<rparr>)) (model_call e i))\<rparr>) img w
     = detect_faces e img w"
    by (simp add: detect_faces_unfold Let_def torch_model_call opencv_model_call
        analyze_and_draw_model_call cong: case_congs)
  from 1 2 show ?thesis by blast
qed

text \<open>
  An instance: with every label set to 18 (a dog), the result on the example image is
  the same, and the two predictions above the threshold are the candidates.
\<close>

theorem labels_ignored_witness:
  "detect_faces (env0\<lparr>model_call := (\<lambda>i. map_sum id (map (\<lambda>p. p\<lparr>labels := [18, 18, 18]\<rparr>)) (model_call env0 i))\<rparr>)
      sample_img w0 = detect_faces env0 sample_img w0 \<and>
   detect_faces_torch env0 sample_img =
     Inr ([(FloatNum (21 / 2), FloatNum 10, FloatNum 90, FloatNum (181 / 2)),
           (FloatNum 0, FloatNum 0, FloatNum 15, FloatNum 15)], [19 / 20, 9 / 10])"
  using labels_ignored[where e=env0 and g="\<lambda>_. [18, 18, 18]" and img=sample_img and w=w0]
  by (simp add: env0_def)

end
